theory Spec2Isabelle
  imports Complex_Main
begin

section \<open>The quick-trace widget (components/quickTrace/index.tsx)\<close>

text \<open>
  The module renders a row of nodes for the trace around the event being viewed. The
  embedding keeps the shape of the source: \<open>EventNodeSelector\<close> turns one bucket of events
  into one element, \<open>QuickTrace\<close> pushes the elements of the buckets onto a list, and
  \<open>MissingServiceNode\<close> is a small component whose state is read from local storage.

  Functions imported from other modules (the trace parser, the target generators, the
  duration formatter, \<open>toTitleCase\<close>) are parameters, collected in the record
  \<open>externals\<close>. Calls of the locale functions \<open>t\<close>, \<open>tn\<close> and \<open>tct\<close> are kept as
  terms of the type \<open>ReactNode\<close>.
\<close>

subsection \<open>Data\<close>

text \<open>
  The fields of a trace error that the module reads. \<open>DropdownNodeItem\<close> takes
  \<open>TraceError | QuickTraceEvent\<close> and reads the fields the two share, so the event record
  extends this one.
\<close>

record TraceError =
  event_id :: string
  project_slug :: string
  transaction :: string

record MissingService =
  child :: bool

record QuickTraceEvent = TraceError +
  transaction_duration :: real
  errors :: "TraceError list option"
  missing_service :: "MissingService option"

text \<open>The event being viewed (\<open>app/types/event\<close>): its \<open>id\<close> and \<open>type\<close>.\<close>

record Event =
  ev_id :: string
  ev_type :: string

record OrganizationSummary =
  org_id :: string
  org_slug :: string

type_synonym Location = string

text \<open>
  \<open>LocationDescriptor\<close> of the history package is a path string or a descriptor object.
  The source tests one for truthiness; of these values only the empty path is falsy.
\<close>

datatype LocationDescriptor =
  Path string
  | LocationDescriptorObject string "(string \<times> string) list"

fun truthy :: "LocationDescriptor option \<Rightarrow> bool" where
  "truthy None = False"
| "truthy (Some (Path s)) = (s \<noteq> [])"
| "truthy (Some (LocationDescriptorObject pathname query)) = True"

datatype Anchor = AnchorLeft | AnchorRight

datatype NodeKey =
  root_key | ancestors_key | parent_key | current_key | children_key | descendants_key

fun TOOLTIP_PREFIX :: "NodeKey \<Rightarrow> string" where
  "TOOLTIP_PREFIX root_key = ''root''"
| "TOOLTIP_PREFIX ancestors_key = ''ancestor''"
| "TOOLTIP_PREFIX parent_key = ''parent''"
| "TOOLTIP_PREFIX current_key = ''''"
| "TOOLTIP_PREFIX children_key = ''child''"
| "TOOLTIP_PREFIX descendants_key = ''descendant''"

record ParsedQuickTrace =
  root :: "QuickTraceEvent option"
  ancestors :: "QuickTraceEvent list option"
  parent :: "QuickTraceEvent option"
  current :: QuickTraceEvent
  children :: "QuickTraceEvent list"
  descendants :: "QuickTraceEvent list option"

text \<open>
  The imported functions. \<open>parseQuickTrace\<close> may throw: \<open>Inl\<close> carries the error.
\<close>

record 'qt externals =
  parseQuickTrace :: "'qt \<Rightarrow> Event \<Rightarrow> string + ParsedQuickTrace"
  generateSingleErrorTarget ::
    "TraceError \<Rightarrow> OrganizationSummary \<Rightarrow> Location \<Rightarrow> string \<Rightarrow> LocationDescriptor"
  generateSingleTransactionTarget ::
    "QuickTraceEvent \<Rightarrow> OrganizationSummary \<Rightarrow> Location \<Rightarrow> string \<Rightarrow> LocationDescriptor"
  generateMultiTransactionsTarget ::
    "Event \<Rightarrow> QuickTraceEvent list \<Rightarrow> OrganizationSummary \<Rightarrow> string \<Rightarrow> LocationDescriptor"
  getDuration :: "real \<Rightarrow> nat \<Rightarrow> bool \<Rightarrow> string"
  toTitleCase :: "string \<Rightarrow> string"

subsection \<open>Rendered elements\<close>

datatype ReactNode =
  T string
  | TArg string string
  | Tn string string nat
  | Tct string string string
  | ErrorNodeContent ReactNode
  | SingleEventHoverText QuickTraceEvent

text \<open>The click handlers of the module, with the arguments they are closed over.\<close>

datatype handler =
  handleNode NodeKey OrganizationSummary
  | handleDropdownItem LocationDescriptor NodeKey OrganizationSummary bool
  | dismissMissingServiceHandler

text \<open>
  The children of a dropdown. \<open>DropdownNodeItem\<close> carries its React key, the project slug
  and transaction name it shows, and its props; \<open>DropdownItem\<close> is the plain item used for
  the link to all events of the bucket; the last two are the items of the missing-service
  dropdown.
\<close>

datatype DropdownChild =
  is_DropdownNodeItem: DropdownNodeItem
    (item_key: string) (item_project_slug: string) (item_transaction: string)
    (item_onSelect: handler) (item_first: bool) (item_organization: OrganizationSummary)
    (item_subtext: string) (item_subtextType: string) (item_anchor: Anchor)
  | is_DropdownItem: DropdownItem handler ReactNode
  | ExternalDropdownLink string string
  | DismissItem handler

datatype element =
  TraceConnector
  | EventNode string ReactNode
  | StyledEventNode ReactNode ReactNode "LocationDescriptor option" "handler option" string
  | DropdownLink element bool "DropdownChild list"

datatype rendered =
  Fragment string
  | QuickTraceContainer "element list"

text \<open>The children of a dropdown; other elements have none.\<close>

fun dropdownChildren :: "element \<Rightarrow> DropdownChild list" where
  "dropdownChildren (DropdownLink title anchorRight cs) = cs"
| "dropdownChildren el = []"

text \<open>Whether an element is a dropdown that ends in the link to all events of a bucket.\<close>

definition hasExtras :: "element \<Rightarrow> bool" where
  "hasExtras el = list_ex is_DropdownItem (dropdownChildren el)"

text \<open>The node of the missing service: a dropdown whose title is the plain node \<open>???\<close>.\<close>

fun isPlaceholder :: "element \<Rightarrow> bool" where
  "isPlaceholder (DropdownLink (EventNode ty (T s)) anchorRight cs) = (s = ''???'')"
| "isPlaceholder el = False"

subsection \<open>EventNodeSelector\<close>

text \<open>
  The props, with the types the source declares for them. An optional prop is an
  \<open>option\<close>. \<open>numEvents\<close> is the number of items to list for each kind, a natural
  number here, so that \<open>slice(0, numEvents)\<close> is \<open>take\<close>; the only caller leaves it at
  its default. The prop \<open>text\<close> is the field \<open>text_prop\<close>.
\<close>

record EventNodeSelectorProps =
  location :: Location
  organization :: OrganizationSummary
  events :: "QuickTraceEvent list"
  text_prop :: ReactNode
  currentEvent :: "Event option"
  extrasTarget :: "LocationDescriptor option"
  numEvents :: "nat option"
  anchor :: Anchor
  nodeKey :: NodeKey
  errorDest :: string
  transactionDest :: string

text \<open>
  The two nested \<open>forEach\<close> loops that fill \<open>errors\<close>: the inner one pushes the errors of
  one event, each with the event's transaction name, unless the error's \<open>event_id\<close> is
  the current event's \<open>id\<close>; the outer one runs over the events. The accumulator is the
  array \<open>errors\<close>.
\<close>

fun pushErrors ::
  "Event option \<Rightarrow> QuickTraceEvent \<Rightarrow> TraceError list \<Rightarrow> TraceError list \<Rightarrow> TraceError list"
where
  "pushErrors cur e acc [] = acc"
| "pushErrors cur e acc (error # rest) =
     pushErrors cur e
       (if (case cur of None \<Rightarrow> True | Some c \<Rightarrow> ev_id c \<noteq> event_id error)
        then acc @ [error\<lparr>transaction := transaction e\<rparr>]
        else acc)
       rest"

fun hoistErrors ::
  "Event option \<Rightarrow> TraceError list \<Rightarrow> QuickTraceEvent list \<Rightarrow> TraceError list"
where
  "hoistErrors cur acc [] = acc"
| "hoistErrors cur acc (e # es) =
     hoistErrors cur
       (case errors e of None \<Rightarrow> acc | Some errs \<Rightarrow> pushErrors cur e acc errs)
       es"

text \<open>\<open>events = currentEvent ? events.filter(e => e.event_id !== currentEvent.id) : events\<close>\<close>

definition filterCurrent :: "Event option \<Rightarrow> QuickTraceEvent list \<Rightarrow> QuickTraceEvent list" where
  "filterCurrent cur evs =
     (case cur of
        Some c \<Rightarrow> filter (\<lambda>e. event_id e \<noteq> ev_id c) evs
      | None \<Rightarrow> evs)"

text \<open>
  The values of \<open>errors\<close> and \<open>events\<close> once the loops and the filter have run. The loops
  run first, over the events as they were passed in.
\<close>

definition errorsOfBucket :: "EventNodeSelectorProps \<Rightarrow> TraceError list" where
  "errorsOfBucket p = hoistErrors (currentEvent p) [] (events p)"

definition eventsOfBucket :: "EventNodeSelectorProps \<Rightarrow> QuickTraceEvent list" where
  "eventsOfBucket p = filterCurrent (currentEvent p) (events p)"

text \<open>The default of the optional prop: \<open>numEvents = 5\<close>.\<close>

definition numEventsOf :: "EventNodeSelectorProps \<Rightarrow> nat" where
  "numEventsOf p = (case numEvents p of None \<Rightarrow> 5 | Some n \<Rightarrow> n)"

text \<open>
  \<open>type\<close> and \<open>text\<close> after the escalation test
  \<open>errors.length > 0 || (currentEvent && currentEvent?.type !== 'transaction')\<close>.
\<close>

definition escalated :: "EventNodeSelectorProps \<Rightarrow> TraceError list \<Rightarrow> bool" where
  "escalated p errs =
     (length errs > 0 \<or>
      (case currentEvent p of None \<Rightarrow> False | Some c \<Rightarrow> ev_type c \<noteq> ''transaction''))"

definition nodeType :: "EventNodeSelectorProps \<Rightarrow> TraceError list \<Rightarrow> string" where
  "nodeType p errs =
     (if escalated p errs
      then (if nodeKey p = current_key then ''error'' else ''warning'')
      else (if nodeKey p = current_key then ''black'' else ''white''))"

definition nodeText :: "EventNodeSelectorProps \<Rightarrow> TraceError list \<Rightarrow> ReactNode" where
  "nodeText p errs = (if escalated p errs then ErrorNodeContent (text_prop p) else text_prop p)"

text \<open>The hover text of the dropdown title.\<close>

definition dropdownHoverText ::
  "EventNodeSelectorProps \<Rightarrow> TraceError list \<Rightarrow> QuickTraceEvent list \<Rightarrow> ReactNode"
where
  "dropdownHoverText p errs evs =
     Tct ''View [eventPrefix] [eventType]'' (TOOLTIP_PREFIX (nodeKey p))
       (if errs \<noteq> [] \<and> evs \<noteq> [] then ''events''
        else if evs \<noteq> [] then ''transactions''
        else ''errors'')"

text \<open>The bodies of the two \<open>map\<close> callbacks of the dropdown, with the index \<open>i\<close>.\<close>

definition errorItem ::
  "'qt externals \<Rightarrow> EventNodeSelectorProps \<Rightarrow> nat \<Rightarrow> TraceError \<Rightarrow> DropdownChild"
where
  "errorItem x p i error =
     (let target = generateSingleErrorTarget x error (organization p) (location p) (errorDest p)
      in DropdownNodeItem (event_id error) (project_slug error) (transaction error)
           (handleDropdownItem target (nodeKey p) (organization p) False)
           (i = 0) (organization p) ''error'' ''error'' (anchor p))"

definition eventItem ::
  "'qt externals \<Rightarrow> EventNodeSelectorProps \<Rightarrow> TraceError list \<Rightarrow> nat \<Rightarrow> QuickTraceEvent
     \<Rightarrow> DropdownChild"
where
  "eventItem x p errs i event =
     (let target =
            generateSingleTransactionTarget x event (organization p) (location p)
              (transactionDest p)
      in DropdownNodeItem (event_id event) (project_slug event) (transaction event)
           (handleDropdownItem target (nodeKey p) (organization p) False)
           (i = 0 \<and> length errs = 0) (organization p)
           (getDuration x (transaction_duration event / 1000)
              (if transaction_duration event < 1000 then 0 else 2) True)
           ''default'' (anchor p))"

text \<open>
  The first two children of the dropdown: \<open>errors.slice(0, numEvents).map(...)\<close> and
  \<open>events.slice(0, numEvents).map(...)\<close>, the callback taking the element and its index.
\<close>

definition errorItems ::
  "'qt externals \<Rightarrow> EventNodeSelectorProps \<Rightarrow> TraceError list \<Rightarrow> DropdownChild list"
where
  "errorItems x p errs =
     map (\<lambda>(i, error). errorItem x p i error) (enumerate 0 (take (numEventsOf p) errs))"

definition eventItems ::
  "'qt externals \<Rightarrow> EventNodeSelectorProps \<Rightarrow> TraceError list \<Rightarrow> QuickTraceEvent list
     \<Rightarrow> DropdownChild list"
where
  "eventItems x p errs evs =
     map (\<lambda>(i, event). eventItem x p errs i event) (enumerate 0 (take (numEventsOf p) evs))"

text \<open>
  The last child of the dropdown:
  \<open>events.length > numEvents && hoverText && extrasTarget && <DropdownItem ...>\<close>.
  \<open>hoverText\<close> is the value of \<open>tct\<close>, a React node, which is truthy.
\<close>

definition extrasItem ::
  "EventNodeSelectorProps \<Rightarrow> ReactNode \<Rightarrow> QuickTraceEvent list \<Rightarrow> DropdownChild list"
where
  "extrasItem p hoverText evs =
     (if length evs > numEventsOf p \<and> truthy (extrasTarget p)
      then (case extrasTarget p of
              Some target \<Rightarrow>
                [DropdownItem (handleDropdownItem target (nodeKey p) (organization p) True)
                   hoverText]
            | None \<Rightarrow> [])
      else [])"

definition EventNodeSelector :: "'qt externals \<Rightarrow> EventNodeSelectorProps \<Rightarrow> element" where
  "EventNodeSelector x p =
     (let errs = errorsOfBucket p;
          evs = eventsOfBucket p;
          ty = nodeType p errs;
          tx = nodeText p errs
      in if length evs + length errs = 0 then EventNode ty tx
         else if length evs + length errs = 1 then
           (let hoverText =
                  (if length errs \<noteq> 0 then T ''View the error for this Transaction''
                   else SingleEventHoverText (evs ! 0));
                target =
                  (if length errs \<noteq> 0
                   then generateSingleErrorTarget x (errs ! 0) (organization p) (location p)
                          (errorDest p)
                   else generateSingleTransactionTarget x (evs ! 0) (organization p)
                          (location p) (transactionDest p))
            in StyledEventNode tx hoverText (Some target)
                 (Some (handleNode (nodeKey p) (organization p))) ty)
         else
           (let hoverText = dropdownHoverText p errs evs
            in DropdownLink (StyledEventNode tx hoverText None None ty)
                 (anchor p = AnchorRight)
                 (errorItems x p errs @ eventItems x p errs evs
                  @ extrasItem p hoverText evs)))"

subsection \<open>MissingServiceNode\<close>

text \<open>
  Local storage is a map from keys to strings; \<open>getItem\<close> of a key that is not there is
  \<open>null\<close>, here \<open>None\<close>.
\<close>

type_synonym localStorage = "string \<rightharpoonup> string"

definition HIDE_MISSING_SERVICE_KEY :: string where
  "HIDE_MISSING_SERVICE_KEY = ''quick-trace:hide-missing-services''"

definition readMissingServiceState :: "localStorage \<Rightarrow> bool" where
  "readMissingServiceState ls =
     (let v = ls HIDE_MISSING_SERVICE_KEY in v = Some ''1'')"

record MissingServiceState =
  hideMissing :: bool

text \<open>The state initialiser of the class: it runs when an instance is constructed.\<close>

definition MissingServiceNode_construct :: "localStorage \<Rightarrow> MissingServiceState" where
  "MissingServiceNode_construct ls = \<lparr>hideMissing = readMissingServiceState ls\<rparr>"

text \<open>
  What the component acts on: local storage, the state of the mounted instance, and the
  keys of the analytics events sent so far.
\<close>

record world =
  storage :: localStorage
  component :: MissingServiceState
  tracked :: "string list"

definition dismissMissingService :: "world \<Rightarrow> world" where
  "dismissMissingService w =
     (let w1 = w\<lparr>storage := (storage w)(HIDE_MISSING_SERVICE_KEY \<mapsto> ''1'')\<rparr>;
          w2 = w1\<lparr>component := (component w1)\<lparr>hideMissing := True\<rparr>\<rparr>
      in w2\<lparr>tracked := tracked w2 @ [''quick_trace.hide.missing-service'']\<rparr>)"

text \<open>
  \<open>render\<close>: an empty fragment when hidden, otherwise a connector and the dropdown with
  the two items. The children of the fragment are given as a list.
\<close>

definition MissingServiceNode_render :: "MissingServiceState \<Rightarrow> Anchor \<Rightarrow> element list" where
  "MissingServiceNode_render st anch =
     (if hideMissing st then []
      else [TraceConnector,
            DropdownLink (EventNode ''white'' (T ''???'')) (anch = AnchorRight)
              [ExternalDropdownLink
                 ''https://docs.sentry.io/platforms/javascript/performance/connect-services/''
                 ''Connect to a service'',
               DismissItem dismissMissingServiceHandler]])"

text \<open>
  The life of the component as transitions: the user selects Dismiss, or the component is
  constructed again (a new instance reads the flag). \<open>mount\<close> is the first construction.
\<close>

datatype action = Dismiss | Reconstruct

fun step :: "world \<Rightarrow> action \<Rightarrow> world" where
  "step w Dismiss = dismissMissingService w"
| "step w Reconstruct = w\<lparr>component := MissingServiceNode_construct (storage w)\<rparr>"

definition mount :: "localStorage \<Rightarrow> world" where
  "mount ls = \<lparr>storage = ls, component = MissingServiceNode_construct ls, tracked = []\<rparr>"

fun run :: "world \<Rightarrow> action list \<Rightarrow> world" where
  "run w [] = w"
| "run w (a # as) = run (step w a) as"

subsection \<open>QuickTrace\<close>

text \<open>The em dash (U+2014), as the three bytes of its UTF-8 encoding.\<close>

definition em_dash :: string where
  "em_dash = [CHR 0xE2, CHR 0x80, CHR 0x94]"

text \<open>The elements that \<open>QuickTrace\<close> creates for the six buckets.\<close>

definition rootNode ::
  "'qt externals \<Rightarrow> QuickTraceEvent \<Rightarrow> Location \<Rightarrow> OrganizationSummary \<Rightarrow> Anchor \<Rightarrow> string
     \<Rightarrow> string \<Rightarrow> element"
where
  "rootNode x r loc org anch eDest tDest =
     EventNodeSelector x
       \<lparr>location = loc, organization = org, events = [r], text_prop = T ''Root'',
        currentEvent = None, extrasTarget = None, numEvents = None, anchor = anch,
        nodeKey = root_key, errorDest = eDest, transactionDest = tDest\<rparr>"

definition ancestorsNode ::
  "'qt externals \<Rightarrow> Event \<Rightarrow> QuickTraceEvent list \<Rightarrow> Location \<Rightarrow> OrganizationSummary
     \<Rightarrow> Anchor \<Rightarrow> string \<Rightarrow> string \<Rightarrow> element"
where
  "ancestorsNode x event anc loc org anch eDest tDest =
     EventNodeSelector x
       \<lparr>location = loc, organization = org, events = anc,
        text_prop = Tn ''%s Ancestor'' ''%s Ancestors'' (length anc),
        currentEvent = None,
        extrasTarget = Some (generateMultiTransactionsTarget x event anc org ''Ancestor''),
        numEvents = None, anchor = anch,
        nodeKey = ancestors_key, errorDest = eDest, transactionDest = tDest\<rparr>"

definition parentNode ::
  "'qt externals \<Rightarrow> QuickTraceEvent \<Rightarrow> Location \<Rightarrow> OrganizationSummary \<Rightarrow> Anchor \<Rightarrow> string
     \<Rightarrow> string \<Rightarrow> element"
where
  "parentNode x par loc org anch eDest tDest =
     EventNodeSelector x
       \<lparr>location = loc, organization = org, events = [par], text_prop = T ''Parent'',
        currentEvent = None, extrasTarget = None, numEvents = None, anchor = anch,
        nodeKey = parent_key, errorDest = eDest, transactionDest = tDest\<rparr>"

definition currentNode ::
  "'qt externals \<Rightarrow> Event \<Rightarrow> QuickTraceEvent \<Rightarrow> Location \<Rightarrow> OrganizationSummary \<Rightarrow> Anchor
     \<Rightarrow> string \<Rightarrow> string \<Rightarrow> element"
where
  "currentNode x event cur loc org anch eDest tDest =
     EventNodeSelector x
       \<lparr>location = loc, organization = org, events = [cur],
        text_prop = TArg ''This %s'' (toTitleCase x (ev_type event)),
        currentEvent = Some event, extrasTarget = None, numEvents = None, anchor = anch,
        nodeKey = current_key, errorDest = eDest, transactionDest = tDest\<rparr>"

definition childrenNode ::
  "'qt externals \<Rightarrow> Event \<Rightarrow> QuickTraceEvent list \<Rightarrow> Location \<Rightarrow> OrganizationSummary
     \<Rightarrow> Anchor \<Rightarrow> string \<Rightarrow> string \<Rightarrow> element"
where
  "childrenNode x event chi loc org anch eDest tDest =
     EventNodeSelector x
       \<lparr>location = loc, organization = org, events = chi,
        text_prop = Tn ''%s Child'' ''%s Children'' (length chi),
        currentEvent = None,
        extrasTarget = Some (generateMultiTransactionsTarget x event chi org ''Children''),
        numEvents = None, anchor = anch,
        nodeKey = children_key, errorDest = eDest, transactionDest = tDest\<rparr>"

definition descendantsNode ::
  "'qt externals \<Rightarrow> Event \<Rightarrow> QuickTraceEvent list \<Rightarrow> Location \<Rightarrow> OrganizationSummary
     \<Rightarrow> Anchor \<Rightarrow> string \<Rightarrow> string \<Rightarrow> element"
where
  "descendantsNode x event des loc org anch eDest tDest =
     EventNodeSelector x
       \<lparr>location = loc, organization = org, events = des,
        text_prop = Tn ''%s Descendant'' ''%s Descendants'' (length des),
        currentEvent = None,
        extrasTarget = Some (generateMultiTransactionsTarget x event des org ''Descendant''),
        numEvents = None, anchor = anch,
        nodeKey = descendants_key, errorDest = eDest, transactionDest = tDest\<rparr>"

text \<open>
  \<open>ancestors?.length\<close> and \<open>descendants?.length\<close>: truthy when the array is there and
  not empty.
\<close>

fun nonEmpty :: "'a list option \<Rightarrow> 'a list option" where
  "nonEmpty None = None"
| "nonEmpty (Some []) = None"
| "nonEmpty (Some (v # va)) = Some (v # va)"

text \<open>
  The component. The \<open>try\<close> around the parser is the first \<open>case\<close>; after it the array
  \<open>nodes\<close> is filled by a sequence of conditional pushes, \<open>nodes1\<close> to \<open>nodes7\<close> being its
  value after each of them. The \<open>MissingServiceNode\<close> is rendered as a newly constructed
  instance, which reads the flag from the local storage \<open>ls\<close>; its fragment is spliced
  into the children of the container.
\<close>

definition QuickTrace ::
  "'qt externals \<Rightarrow> localStorage \<Rightarrow> Event \<Rightarrow> 'qt \<Rightarrow> Location \<Rightarrow> OrganizationSummary \<Rightarrow> Anchor
     \<Rightarrow> string \<Rightarrow> string \<Rightarrow> rendered"
where
  "QuickTrace x ls event quickTrace loc org anch eDest tDest =
     (case parseQuickTrace x quickTrace event of
        Inl err \<Rightarrow> Fragment em_dash
      | Inr parsedQuickTrace \<Rightarrow>
          (let nodes1 =
                 (case root parsedQuickTrace of
                    Some r \<Rightarrow> [rootNode x r loc org anch eDest tDest, TraceConnector]
                  | None \<Rightarrow> []);
               nodes2 =
                 (case nonEmpty (ancestors parsedQuickTrace) of
                    Some anc \<Rightarrow>
                      nodes1 @ [ancestorsNode x event anc loc org anch eDest tDest,
                                TraceConnector]
                  | None \<Rightarrow> nodes1);
               nodes3 =
                 (case parent parsedQuickTrace of
                    Some par \<Rightarrow>
                      nodes2 @ [parentNode x par loc org anch eDest tDest, TraceConnector]
                  | None \<Rightarrow> nodes2);
               nodes4 =
                 nodes3 @ [currentNode x event (current parsedQuickTrace) loc org anch eDest
                             tDest];
               nodes5 =
                 (if (case missing_service (current parsedQuickTrace) of
                        Some m \<Rightarrow> child m
                      | None \<Rightarrow> False)
                  then nodes4
                         @ MissingServiceNode_render (MissingServiceNode_construct ls) anch
                  else nodes4);
               nodes6 =
                 (if length (children parsedQuickTrace) \<noteq> 0
                  then nodes5 @ [TraceConnector,
                                 childrenNode x event (children parsedQuickTrace) loc org anch
                                   eDest tDest]
                  else nodes5);
               nodes7 =
                 (case nonEmpty (descendants parsedQuickTrace) of
                    Some des \<Rightarrow>
                      nodes6 @ [TraceConnector,
                                descendantsNode x event des loc org anch eDest tDest]
                  | None \<Rightarrow> nodes6)
           in QuickTraceContainer nodes7))"

subsection \<open>The hoisted errors, described without the loops\<close>

text \<open>
  What the loops are meant to compute, written with \<open>filter\<close>, \<open>map\<close> and \<open>concat\<close>: an
  error is kept unless a current event is given and has the error's identifier; the
  errors of one event are the kept ones, in their order, under the event's transaction
  name. Lemma \<open>errorsOfBucket_eq\<close> below shows that the loops compute the concatenation
  of these lists in the order of the events.
\<close>

definition keepError :: "Event option \<Rightarrow> TraceError \<Rightarrow> bool" where
  "keepError cur error = (case cur of None \<Rightarrow> True | Some c \<Rightarrow> ev_id c \<noteq> event_id error)"

definition errorsOfEvent :: "Event option \<Rightarrow> QuickTraceEvent \<Rightarrow> TraceError list" where
  "errorsOfEvent cur e =
     (case errors e of
        None \<Rightarrow> []
      | Some errs \<Rightarrow>
          map (\<lambda>error. error\<lparr>transaction := transaction e\<rparr>) (filter (keepError cur) errs))"

subsection \<open>Example inputs\<close>

text \<open>
  Concrete values on which the theorems below are instantiated. The imported functions
  are replaced by simple ones; the parser of \<open>x0\<close> returns the payload it is given, so a
  payload is a parse result or an error.
\<close>

definition org0 :: OrganizationSummary where
  "org0 = \<lparr>org_id = ''1'', org_slug = ''acme''\<rparr>"

definition x0 :: "(string + ParsedQuickTrace) externals" where
  "x0 = \<lparr>parseQuickTrace = (\<lambda>quickTrace event. quickTrace),
         generateSingleErrorTarget = (\<lambda>error org loc dest. Path (''/error/'' @ event_id error)),
         generateSingleTransactionTarget =
           (\<lambda>event org loc dest. Path (''/transaction/'' @ event_id event)),
         generateMultiTransactionsTarget =
           (\<lambda>event evs org groupType. Path (''/all/'' @ groupType)),
         getDuration = (\<lambda>seconds fixedDigits abbreviation. ''d''),
         toTitleCase = (\<lambda>s. s)\<rparr>"

definition mkError :: "string \<Rightarrow> TraceError" where
  "mkError i = \<lparr>event_id = i, project_slug = ''web'', transaction = ''''\<rparr>"

definition mkEvent :: "string \<Rightarrow> TraceError list option \<Rightarrow> QuickTraceEvent" where
  "mkEvent i errs =
     \<lparr>event_id = i, project_slug = ''web'', transaction = ''/home'',
      transaction_duration = 1500, errors = errs, missing_service = None\<rparr>"

definition mkProps ::
  "QuickTraceEvent list \<Rightarrow> Event option \<Rightarrow> LocationDescriptor option \<Rightarrow> NodeKey
     \<Rightarrow> EventNodeSelectorProps"
where
  "mkProps evs cur extras k =
     \<lparr>location = ''/here'', organization = org0, events = evs, text_prop = T ''Node'',
      currentEvent = cur, extrasTarget = extras, numEvents = Some 5, anchor = AnchorLeft,
      nodeKey = k, errorDest = ''issue'', transactionDest = ''performance''\<rparr>"

text \<open>Seven events without errors.\<close>

definition sevenEvents :: "QuickTraceEvent list" where
  "sevenEvents =
     [mkEvent ''e1'' None, mkEvent ''e2'' None, mkEvent ''e3'' None, mkEvent ''e4'' None,
      mkEvent ''e5'' None, mkEvent ''e6'' None, mkEvent ''e7'' None]"

text \<open>Two events that carry three errors between them.\<close>

definition twoEventsThreeErrors :: "QuickTraceEvent list" where
  "twoEventsThreeErrors =
     [mkEvent ''e1'' (Some [mkError ''x1'', mkError ''x2'']),
      mkEvent ''e2'' (Some [mkError ''x3''])]"

text \<open>One event that carries six errors.\<close>

definition oneEventSixErrors :: "QuickTraceEvent list" where
  "oneEventSixErrors =
     [mkEvent ''e1''
        (Some [mkError ''x1'', mkError ''x2'', mkError ''x3'', mkError ''x4'', mkError ''x5'',
               mkError ''x6''])]"

text \<open>The event being viewed, as a transaction and as an error.\<close>

definition viewedTransaction :: Event where
  "viewedTransaction = \<lparr>ev_id = ''c'', ev_type = ''transaction''\<rparr>"

definition viewedError :: Event where
  "viewedError = \<lparr>ev_id = ''c'', ev_type = ''error''\<rparr>"

text \<open>
  A parsed trace with a root, a parent and one child, no ancestors and no descendants;
  and the same trace when the current event reports a missing child service.
\<close>

definition smallTrace :: ParsedQuickTrace where
  "smallTrace =
     \<lparr>root = Some (mkEvent ''r'' None), ancestors = Some [], parent = Some (mkEvent ''p'' None),
      current = mkEvent ''c'' None, children = [mkEvent ''k'' None], descendants = None\<rparr>"

definition smallTraceMissing :: ParsedQuickTrace where
  "smallTraceMissing =
     smallTrace\<lparr>current := (mkEvent ''c'' None)\<lparr>missing_service := Some \<lparr>child = True\<rparr>\<rparr>\<rparr>"

definition emptyStorage :: localStorage where
  "emptyStorage = Map.empty"

text \<open>
  A copy of the viewed event \<open>c\<close> that carries six errors; and a parsed trace whose
  children hold an event with the identifier of the viewed event.
\<close>

definition viewedCopySixErrors :: QuickTraceEvent where
  "viewedCopySixErrors =
     mkEvent ''c''
       (Some [mkError ''x1'', mkError ''x2'', mkError ''x3'', mkError ''x4'', mkError ''x5'',
              mkError ''x6''])"

definition traceWithViewedChild :: ParsedQuickTrace where
  "traceWithViewedChild =
     \<lparr>root = None, ancestors = None, parent = None, current = mkEvent ''c'' None,
      children = [mkEvent ''c'' None, mkEvent ''k'' None], descendants = None\<rparr>"

section \<open>Properties\<close>

subsection \<open>Auxiliary facts\<close>

lemmas fixture_defs =
  mkProps_def mkEvent_def mkError_def sevenEvents_def twoEventsThreeErrors_def
  oneEventSixErrors_def org0_def viewedTransaction_def viewedError_def

lemmas bucket_defs =
  errorsOfBucket_def eventsOfBucket_def filterCurrent_def numEventsOf_def

text \<open>The inner and the outer loop append to the accumulator what the closed form says.\<close>

lemma pushErrors_eq:
  "pushErrors cur e acc errs =
     acc @ map (\<lambda>error. error\<lparr>transaction := transaction e\<rparr>) (filter (keepError cur) errs)"
  by (induction errs arbitrary: acc) (simp_all add: keepError_def)

lemma hoistErrors_eq:
  "hoistErrors cur acc es = acc @ concat (map (errorsOfEvent cur) es)"
  by (induction es arbitrary: acc)
     (simp_all add: errorsOfEvent_def pushErrors_eq split: option.splits)

lemma errorsOfBucket_eq:
  "errorsOfBucket p = concat (map (errorsOfEvent (currentEvent p)) (events p))"
  by (simp add: errorsOfBucket_def hoistErrors_eq)

text \<open>The third branch of \<open>EventNodeSelector\<close>: more than one item gives the dropdown.\<close>

lemma EventNodeSelector_dropdown:
  assumes "length (eventsOfBucket p) + length (errorsOfBucket p) > 1"
  shows "EventNodeSelector x p =
     DropdownLink
       (StyledEventNode (nodeText p (errorsOfBucket p))
          (dropdownHoverText p (errorsOfBucket p) (eventsOfBucket p)) None None
          (nodeType p (errorsOfBucket p)))
       (anchor p = AnchorRight)
       (errorItems x p (errorsOfBucket p)
        @ eventItems x p (errorsOfBucket p) (eventsOfBucket p)
        @ extrasItem p (dropdownHoverText p (errorsOfBucket p) (eventsOfBucket p))
            (eventsOfBucket p))"
  using assms by (auto simp add: EventNodeSelector_def Let_def)

text \<open>With at most one item the element is a plain node or a link and has no children.\<close>

lemma EventNodeSelector_small:
  assumes "length (eventsOfBucket p) + length (errorsOfBucket p) \<le> 1"
  shows "dropdownChildren (EventNodeSelector x p) = []"
proof -
  from assms have "length (eventsOfBucket p) + length (errorsOfBucket p) = 0
      \<or> length (eventsOfBucket p) + length (errorsOfBucket p) = 1"
    by arith
  then show ?thesis
    by (elim disjE) (simp_all add: EventNodeSelector_def Let_def)
qed

lemma EventNodeSelector_not_placeholder: "\<not> isPlaceholder (EventNodeSelector x p)"
  by (simp add: EventNodeSelector_def Let_def)

text \<open>
  The items made from errors and from events: how many there are, their React keys, and
  that none of them is the plain \<open>DropdownItem\<close>.
\<close>

lemma errorItem_keys:
  "map item_key (map (\<lambda>(i, error). errorItem x p i error) (enumerate n errs))
     = map event_id errs"
  by (induction errs arbitrary: n) (simp_all add: errorItem_def)

lemma eventItem_keys:
  "map item_key (map (\<lambda>(i, event). eventItem x p errs i event) (enumerate n evs))
     = map event_id evs"
  by (induction evs arbitrary: n) (simp_all add: eventItem_def)

lemma errorItems_facts:
  "length (errorItems x p errs) = min (numEventsOf p) (length errs)"
  "map item_key (errorItems x p errs) = map event_id (take (numEventsOf p) errs)"
  "list_all is_DropdownNodeItem (errorItems x p errs)"
  "\<not> list_ex is_DropdownItem (errorItems x p errs)"
     apply (simp add: errorItems_def)
    apply (simp only: errorItems_def errorItem_keys)
   apply (simp add: errorItems_def errorItem_def list_all_iff split_beta)
  apply (simp add: errorItems_def errorItem_def list_ex_iff split_beta)
  done

lemma eventItems_facts:
  "length (eventItems x p errs evs) = min (numEventsOf p) (length evs)"
  "map item_key (eventItems x p errs evs) = map event_id (take (numEventsOf p) evs)"
  "list_all is_DropdownNodeItem (eventItems x p errs evs)"
  "\<not> list_ex is_DropdownItem (eventItems x p errs evs)"
     apply (simp add: eventItems_def)
    apply (simp only: eventItems_def eventItem_keys)
   apply (simp add: eventItems_def eventItem_def list_all_iff split_beta)
  apply (simp add: eventItems_def eventItem_def list_ex_iff split_beta)
  done

lemma errorItem_subtextTypes:
  "map item_subtextType (map (\<lambda>(i, error). errorItem x p i error) (enumerate n errs))
     = replicate (length errs) ''error''"
  by (induction errs arbitrary: n) (simp_all add: errorItem_def)

lemma eventItem_subtextTypes:
  "map item_subtextType (map (\<lambda>(i, event). eventItem x p errs i event) (enumerate n evs))
     = replicate (length evs) ''default''"
  by (induction evs arbitrary: n) (simp_all add: eventItem_def)

text \<open>The item at a position below the cap is the item of the error at that position.\<close>

lemma errorItems_nth:
  assumes "i < length errs" and "i < numEventsOf p"
  shows "errorItems x p errs ! i = errorItem x p i (errs ! i)"
  using assms by (simp add: errorItems_def nth_enumerate_eq)

text \<open>The last child is there exactly when both tests of the source succeed.\<close>

lemma extrasItem_cases:
  "extrasItem p h evs =
     (if numEventsOf p < length evs \<and> truthy (extrasTarget p)
      then [DropdownItem (handleDropdownItem (the (extrasTarget p)) (nodeKey p) (organization p) True) h]
      else [])"
  by (cases "extrasTarget p") (simp_all add: extrasItem_def)

lemma hasExtras_iff:
  "hasExtras (EventNodeSelector x p) \<longleftrightarrow>
      1 < length (eventsOfBucket p) + length (errorsOfBucket p)
      \<and> numEventsOf p < length (eventsOfBucket p) \<and> truthy (extrasTarget p)"
proof (cases "1 < length (eventsOfBucket p) + length (errorsOfBucket p)")
  case True
  then show ?thesis
    by (simp add: EventNodeSelector_dropdown hasExtras_def errorItems_facts eventItems_facts
          extrasItem_cases)
next
  case False
  then have "dropdownChildren (EventNodeSelector x p) = []"
    by (intro EventNodeSelector_small) simp
  with False show ?thesis by (simp add: hasExtras_def)
qed

lemma no_extras_without_target:
  "extrasTarget p = None \<Longrightarrow> \<not> hasExtras (EventNodeSelector x p)"
  by (simp add: hasExtras_iff)

text \<open>Membership in the hoisted errors, in both directions.\<close>

lemma errorsOfBucket_kept:
  assumes "error \<in> set (errorsOfBucket p)"
  shows "keepError (currentEvent p) error"
  using assms
  by (auto simp add: errorsOfBucket_eq errorsOfEvent_def keepError_def split: option.splits)

lemma errorsOfBucket_member:
  assumes "e \<in> set (events p)" and "errors e = Some errs" and "error \<in> set errs"
      and "keepError (currentEvent p) error"
  shows "error\<lparr>transaction := transaction e\<rparr> \<in> set (errorsOfBucket p)"
proof -
  from assms(2-4) have "error\<lparr>transaction := transaction e\<rparr>
      \<in> set (errorsOfEvent (currentEvent p) e)"
    by (simp add: errorsOfEvent_def)
  with assms(1) show ?thesis
    unfolding errorsOfBucket_eq by auto
qed

text \<open>The second branch of \<open>EventNodeSelector\<close> when the one item is an error.\<close>

lemma EventNodeSelector_single_error:
  assumes "errorsOfBucket p = [error]" and "eventsOfBucket p = []"
  shows "EventNodeSelector x p =
          StyledEventNode (ErrorNodeContent (text_prop p))
            (T ''View the error for this Transaction'')
            (Some (generateSingleErrorTarget x error (organization p) (location p)
                     (errorDest p)))
            (Some (handleNode (nodeKey p) (organization p)))
            (if nodeKey p = current_key then ''error'' else ''warning'')"
  using assms
  by (simp add: EventNodeSelector_def Let_def nodeType_def nodeText_def escalated_def)

text \<open>Every item of the dropdown shows an error or an event that is left in the bucket.\<close>

lemma node_item_keys:
  assumes "item \<in> set (dropdownChildren (EventNodeSelector x p))"
      and "is_DropdownNodeItem item"
  shows "item_key item \<in> event_id ` set (errorsOfBucket p)
           \<union> event_id ` set (eventsOfBucket p)"
proof (cases "1 < length (eventsOfBucket p) + length (errorsOfBucket p)")
  case True
  from assms have
    "item \<in> set (errorItems x p (errorsOfBucket p))
     \<or> item \<in> set (eventItems x p (errorsOfBucket p) (eventsOfBucket p))"
    by (auto simp add: EventNodeSelector_dropdown [OF True] extrasItem_cases
          split: if_splits)
  then show ?thesis
  proof
    assume "item \<in> set (errorItems x p (errorsOfBucket p))"
    then have "item_key item \<in> set (map item_key (errorItems x p (errorsOfBucket p)))"
      by simp
    then have "item_key item \<in> event_id ` set (take (numEventsOf p) (errorsOfBucket p))"
      by (simp only: errorItems_facts set_map)
    then show ?thesis
      using set_take_subset by fastforce
  next
    assume "item \<in> set (eventItems x p (errorsOfBucket p) (eventsOfBucket p))"
    then have "item_key item
        \<in> set (map item_key (eventItems x p (errorsOfBucket p) (eventsOfBucket p)))"
      by simp
    then have "item_key item \<in> event_id ` set (take (numEventsOf p) (eventsOfBucket p))"
      by (simp only: eventItems_facts set_map)
    then show ?thesis
      using set_take_subset by fastforce
  qed
next
  case False
  then have "dropdownChildren (EventNodeSelector x p) = []"
    by (intro EventNodeSelector_small) simp
  with assms show ?thesis by simp
qed

text \<open>With a current event given, no item of the dropdown has its identifier as key.\<close>

lemma current_id_not_among_items:
  assumes "currentEvent p = Some c"
      and "item \<in> set (dropdownChildren (EventNodeSelector x p))"
      and "is_DropdownNodeItem item"
  shows "item_key item \<noteq> ev_id c"
proof -
  from assms(2,3) have "item_key item \<in> event_id ` set (errorsOfBucket p)
           \<union> event_id ` set (eventsOfBucket p)"
    by (rule node_item_keys)
  moreover have "event_id error \<noteq> ev_id c" if "error \<in> set (errorsOfBucket p)" for error
  proof -
    from that have "keepError (currentEvent p) error"
      by (rule errorsOfBucket_kept)
    with assms(1) show ?thesis
      by (auto simp add: keepError_def)
  qed
  moreover have "event_id e \<noteq> ev_id c" if "e \<in> set (eventsOfBucket p)" for e
    using that assms(1) by (simp add: eventsOfBucket_def filterCurrent_def)
  ultimately show ?thesis
    by auto
qed

text \<open>Without a current event a bucket has no items exactly when it has no events.\<close>

lemma count_zero_iff_empty:
  assumes "currentEvent p = None"
  shows "length (eventsOfBucket p) + length (errorsOfBucket p) = 0 \<longleftrightarrow> events p = []"
  using assms
  by (auto simp add: eventsOfBucket_def filterCurrent_def errorsOfBucket_def)

text \<open>
  After a successful parse the array \<open>nodes\<close> is the concatenation of the parts that the
  pushes add, in the order of the pushes.
\<close>

lemma QuickTrace_parsed:
  assumes "parseQuickTrace x quickTrace event = Inr pq"
  shows "QuickTrace x ls event quickTrace loc org anch eDest tDest =
       QuickTraceContainer
         ((case root pq of
             Some r \<Rightarrow> [rootNode x r loc org anch eDest tDest, TraceConnector]
           | None \<Rightarrow> [])
          @ (case nonEmpty (ancestors pq) of
               Some anc \<Rightarrow> [ancestorsNode x event anc loc org anch eDest tDest, TraceConnector]
             | None \<Rightarrow> [])
          @ (case parent pq of
               Some par \<Rightarrow> [parentNode x par loc org anch eDest tDest, TraceConnector]
             | None \<Rightarrow> [])
          @ [currentNode x event (current pq) loc org anch eDest tDest]
          @ (if (case missing_service (current pq) of Some m \<Rightarrow> child m | None \<Rightarrow> False)
             then MissingServiceNode_render (MissingServiceNode_construct ls) anch
             else [])
          @ (if children pq \<noteq> []
             then [TraceConnector, childrenNode x event (children pq) loc org anch eDest tDest]
             else [])
          @ (case nonEmpty (descendants pq) of
               Some des \<Rightarrow> [TraceConnector, descendantsNode x event des loc org anch eDest tDest]
             | None \<Rightarrow> []))"
  using assms by (simp add: QuickTrace_def Let_def split: option.splits)

text \<open>Only \<open>MissingServiceNode\<close> renders the placeholder.\<close>

lemma bucket_nodes_not_placeholder:
  "\<not> isPlaceholder (rootNode x r loc org anch eDest tDest)"
  "\<not> isPlaceholder (ancestorsNode x event evs loc org anch eDest tDest)"
  "\<not> isPlaceholder (parentNode x r loc org anch eDest tDest)"
  "\<not> isPlaceholder (currentNode x event r loc org anch eDest tDest)"
  "\<not> isPlaceholder (childrenNode x event evs loc org anch eDest tDest)"
  "\<not> isPlaceholder (descendantsNode x event evs loc org anch eDest tDest)"
  by (simp_all only: rootNode_def ancestorsNode_def parentNode_def currentNode_def
        childrenNode_def descendantsNode_def EventNodeSelector_not_placeholder
        not_False_eq_True)

lemma QuickTrace_without_placeholder:
  assumes "parseQuickTrace x quickTrace event = Inr pq" and "readMissingServiceState ls"
  shows "\<exists>nodes.
     QuickTrace x ls event quickTrace loc org anch eDest tDest = QuickTraceContainer nodes
     \<and> \<not> list_ex isPlaceholder nodes"
  using assms(2)
  by (simp add: QuickTrace_parsed [OF assms(1)] bucket_nodes_not_placeholder
        MissingServiceNode_render_def MissingServiceNode_construct_def
        split: option.splits)

text \<open>
  Transitions of the missing-service component: the flag, once set, stays set; a hidden
  component whose flag is set stays hidden; and along every run from a first construction
  a hidden component has its flag set.
\<close>

lemma run_append: "run w (as @ bs) = run (run w as) bs"
  by (induction as arbitrary: w) simp_all

lemma step_keeps_flag:
  assumes "readMissingServiceState (storage w)"
  shows "readMissingServiceState (storage (step w a))"
  using assms
  by (cases a) (simp_all add: dismissMissingService_def Let_def readMissingServiceState_def)

lemma step_keeps_consistent:
  assumes "hideMissing (component w) \<longrightarrow> readMissingServiceState (storage w)"
  shows "hideMissing (component (step w a)) \<longrightarrow> readMissingServiceState (storage (step w a))"
  using assms
  by (cases a)
     (simp_all add: dismissMissingService_def Let_def readMissingServiceState_def
        MissingServiceNode_construct_def)

lemma run_keeps_consistent:
  assumes "hideMissing (component w) \<longrightarrow> readMissingServiceState (storage w)"
  shows "hideMissing (component (run w as)) \<longrightarrow> readMissingServiceState (storage (run w as))"
  using assms
proof (induction as arbitrary: w)
  case Nil
  then show ?case by simp
next
  case (Cons a as)
  from Cons.prems have
    "hideMissing (component (step w a)) \<longrightarrow> readMissingServiceState (storage (step w a))"
    by (rule step_keeps_consistent)
  then show ?case
    using Cons.IH by simp
qed

lemma mount_consistent:
  "hideMissing (component (mount ls)) \<longrightarrow> readMissingServiceState (storage (mount ls))"
  by (simp add: mount_def MissingServiceNode_construct_def)

lemma step_keeps_hidden:
  assumes "hideMissing (component w)" and "readMissingServiceState (storage w)"
  shows "hideMissing (component (step w a))"
  using assms
  by (cases a) (simp_all add: dismissMissingService_def Let_def MissingServiceNode_construct_def)

lemma run_keeps_hidden:
  assumes "hideMissing (component w)" and "readMissingServiceState (storage w)"
  shows "hideMissing (component (run w as)) \<and> readMissingServiceState (storage (run w as))"
  using assms
proof (induction as arbitrary: w)
  case Nil
  then show ?case by simp
next
  case (Cons a as)
  then show ?case
    using step_keeps_hidden [of w a] step_keeps_flag [of w a] by simp
qed

lemma dismiss_hides:
  "hideMissing (component (dismissMissingService w))"
  "storage (dismissMissingService w) HIDE_MISSING_SERVICE_KEY = Some ''1''"
  "readMissingServiceState (storage (dismissMissingService w))"
  "k \<noteq> HIDE_MISSING_SERVICE_KEY \<Longrightarrow> storage (dismissMissingService w) k = storage w k"
  by (simp_all add: dismissMissingService_def Let_def readMissingServiceState_def)

subsection \<open>An empty bucket\<close>

text \<open>
  Claim C7, as amended. When a bucket has no errors and no events left after hoisting and
  self-exclusion, \<open>EventNodeSelector\<close> returns a plain \<open>EventNode\<close> with the label, never
  a link or a dropdown. Its type is \<open>black\<close> in the current slot and \<open>white\<close> elsewhere,
  unless a current event was passed whose type is not \<open>transaction\<close>: then the type is
  \<open>error\<close> in the current slot and \<open>warning\<close> elsewhere, and the label is wrapped in
  \<open>ErrorNodeContent\<close> (the fire icon).
\<close>

theorem empty_bucket_label_only:
  assumes "length (eventsOfBucket p) + length (errorsOfBucket p) = 0"
  shows "EventNodeSelector x p =
     (if (case currentEvent p of None \<Rightarrow> False | Some c \<Rightarrow> ev_type c \<noteq> ''transaction'')
      then EventNode (if nodeKey p = current_key then ''error'' else ''warning'')
             (ErrorNodeContent (text_prop p))
      else EventNode (if nodeKey p = current_key then ''black'' else ''white'') (text_prop p))"
  using assms
  by (simp add: EventNodeSelector_def Let_def nodeType_def nodeText_def escalated_def)

text \<open>The theorem at an empty children bucket: a white node with the plain label.\<close>

theorem empty_bucket_label_only_witness:
  "length (eventsOfBucket (mkProps [] None None children_key))
     + length (errorsOfBucket (mkProps [] None None children_key)) = 0
   \<and> EventNodeSelector x0 (mkProps [] None None children_key) = EventNode ''white'' (T ''Node'')"
proof -
  have h: "length (eventsOfBucket (mkProps [] None None children_key))
     + length (errorsOfBucket (mkProps [] None None children_key)) = 0"
    by (simp add: bucket_defs fixture_defs)
  show ?thesis
    using h empty_bucket_label_only [OF h, of x0] by (simp add: mkProps_def)
qed

text \<open>
  Claim C7 as it was stated fails in the current slot of an error event: the bucket holds
  only the event being viewed, which is filtered out, so nothing is left; the node is in
  the current slot, and yet its type is \<open>error\<close>, not \<open>black\<close>, and its label carries the
  icon.
\<close>

theorem empty_current_slot_of_error_counterexample:
  "length (eventsOfBucket (mkProps [mkEvent ''c'' None] (Some viewedError) None current_key))
     + length (errorsOfBucket (mkProps [mkEvent ''c'' None] (Some viewedError) None current_key))
     = 0
   \<and> nodeKey (mkProps [mkEvent ''c'' None] (Some viewedError) None current_key) = current_key
   \<and> EventNodeSelector x0 (mkProps [mkEvent ''c'' None] (Some viewedError) None current_key)
       = EventNode ''error'' (ErrorNodeContent (T ''Node''))"
  by (simp add: EventNodeSelector_def Let_def nodeType_def nodeText_def escalated_def
        bucket_defs fixture_defs)

subsection \<open>A bucket with one item\<close>

text \<open>
  Claim C8. When exactly one item is left, \<open>EventNodeSelector\<close> returns a
  \<open>StyledEventNode\<close> with a link target. If the item is an error, the target is what
  \<open>generateSingleErrorTarget\<close> returns for it and the hover text is the fixed string
  \<open>View the error for this Transaction\<close>; if it is an event, the target is what
  \<open>generateSingleTransactionTarget\<close> returns for it and the hover text is the
  \<open>SingleEventHoverText\<close> of that event. One of the two cases applies.
\<close>

theorem single_item_link:
  assumes "length (eventsOfBucket p) + length (errorsOfBucket p) = 1"
  shows
    "(errorsOfBucket p = [error] \<longrightarrow>
        eventsOfBucket p = [] \<and>
        EventNodeSelector x p =
          StyledEventNode (ErrorNodeContent (text_prop p))
            (T ''View the error for this Transaction'')
            (Some (generateSingleErrorTarget x error (organization p) (location p)
                     (errorDest p)))
            (Some (handleNode (nodeKey p) (organization p)))
            (if nodeKey p = current_key then ''error'' else ''warning''))
     \<and> (eventsOfBucket p = [event] \<longrightarrow>
        errorsOfBucket p = [] \<and>
        EventNodeSelector x p =
          StyledEventNode (nodeText p []) (SingleEventHoverText event)
            (Some (generateSingleTransactionTarget x event (organization p) (location p)
                     (transactionDest p)))
            (Some (handleNode (nodeKey p) (organization p)))
            (nodeType p []))
     \<and> ((\<exists>err. errorsOfBucket p = [err]) \<or> (\<exists>ev. eventsOfBucket p = [ev]))"
  using assms
  by (auto simp add: EventNodeSelector_def Let_def nodeType_def nodeText_def escalated_def
        length_Suc_conv add_is_1)

text \<open>
  The theorem in both cases: the current slot of a transaction with one error of its own,
  and a parent bucket with one event.
\<close>

theorem single_item_link_witness:
  "length (eventsOfBucket (mkProps [mkEvent ''c'' (Some [mkError ''x1''])]
                             (Some viewedTransaction) None current_key))
     + length (errorsOfBucket (mkProps [mkEvent ''c'' (Some [mkError ''x1''])]
                                 (Some viewedTransaction) None current_key)) = 1
   \<and> errorsOfBucket (mkProps [mkEvent ''c'' (Some [mkError ''x1''])]
                       (Some viewedTransaction) None current_key)
       = [(mkError ''x1'')\<lparr>transaction := ''/home''\<rparr>]
   \<and> EventNodeSelector x0 (mkProps [mkEvent ''c'' (Some [mkError ''x1''])]
                             (Some viewedTransaction) None current_key)
       = StyledEventNode (ErrorNodeContent (T ''Node''))
           (T ''View the error for this Transaction'') (Some (Path ''/error/x1''))
           (Some (handleNode current_key org0)) ''error''
   \<and> length (eventsOfBucket (mkProps [mkEvent ''p'' None] None None parent_key))
     + length (errorsOfBucket (mkProps [mkEvent ''p'' None] None None parent_key)) = 1
   \<and> eventsOfBucket (mkProps [mkEvent ''p'' None] None None parent_key) = [mkEvent ''p'' None]
   \<and> EventNodeSelector x0 (mkProps [mkEvent ''p'' None] None None parent_key)
       = StyledEventNode (T ''Node'') (SingleEventHoverText (mkEvent ''p'' None))
           (Some (Path ''/transaction/p'')) (Some (handleNode parent_key org0)) ''white''"
proof -
  let ?pE = "mkProps [mkEvent ''c'' (Some [mkError ''x1''])] (Some viewedTransaction) None
               current_key"
  let ?pT = "mkProps [mkEvent ''p'' None] None None parent_key"
  have h1: "length (eventsOfBucket ?pE) + length (errorsOfBucket ?pE) = 1"
    by (simp add: bucket_defs fixture_defs)
  have e1: "errorsOfBucket ?pE = [(mkError ''x1'')\<lparr>transaction := ''/home''\<rparr>]"
    by (simp add: bucket_defs fixture_defs)
  have h2: "length (eventsOfBucket ?pT) + length (errorsOfBucket ?pT) = 1"
    by (simp add: bucket_defs fixture_defs)
  have e2: "eventsOfBucket ?pT = [mkEvent ''p'' None]"
    by (simp add: bucket_defs fixture_defs)
  have n1: "EventNodeSelector x0 ?pE
       = StyledEventNode (ErrorNodeContent (T ''Node''))
           (T ''View the error for this Transaction'') (Some (Path ''/error/x1''))
           (Some (handleNode current_key org0)) ''error''"
    using single_item_link [OF h1, THEN conjunct1, THEN mp, OF e1, of x0]
    by (simp add: x0_def mkProps_def mkError_def)
  have n2: "EventNodeSelector x0 ?pT
       = StyledEventNode (T ''Node'') (SingleEventHoverText (mkEvent ''p'' None))
           (Some (Path ''/transaction/p'')) (Some (handleNode parent_key org0)) ''white''"
    using single_item_link [OF h2, THEN conjunct2, THEN conjunct1, THEN mp, OF e2, of x0]
    by (simp add: x0_def mkProps_def mkEvent_def nodeText_def nodeType_def escalated_def)
  from h1 e1 n1 h2 e2 n2 show ?thesis by blast
qed

subsection \<open>The link to all events of a bucket\<close>

text \<open>
  Claim C9. The dropdown ends in the plain \<open>DropdownItem\<close> (the link to all events of
  the bucket) exactly when more than one item is left, the number of events left exceeds
  \<open>numEvents\<close>, and \<open>extrasTarget\<close> is truthy. So the item needs both a target and
  more events than the cap. When the events fit under the cap the children are the items
  of the first \<open>numEvents\<close> errors and the items of the events and nothing else, however
  many errors there are: errors past the cap are dropped without a link. The nodes that
  \<open>QuickTrace\<close> creates for root, parent and current get no \<open>extrasTarget\<close> and
  never show the link.
\<close>

theorem overflow_item_gate:
  "(hasExtras (EventNodeSelector x p) \<longleftrightarrow>
      1 < length (eventsOfBucket p) + length (errorsOfBucket p)
      \<and> numEventsOf p < length (eventsOfBucket p) \<and> truthy (extrasTarget p))
   \<and> (hasExtras (EventNodeSelector x p) \<longrightarrow>
        extrasTarget p \<noteq> None \<and> numEventsOf p < length (eventsOfBucket p))
   \<and> (1 < length (eventsOfBucket p) + length (errorsOfBucket p)
        \<and> length (eventsOfBucket p) \<le> numEventsOf p \<longrightarrow>
        dropdownChildren (EventNodeSelector x p) =
          errorItems x p (errorsOfBucket p)
          @ eventItems x p (errorsOfBucket p) (eventsOfBucket p)
        \<and> length (errorItems x p (errorsOfBucket p))
            = min (numEventsOf p) (length (errorsOfBucket p)))
   \<and> \<not> hasExtras (rootNode x r loc org anch eDest tDest)
   \<and> \<not> hasExtras (parentNode x par loc org anch eDest tDest)
   \<and> \<not> hasExtras (currentNode x event cur loc org anch eDest tDest)"
proof -
  have a: "hasExtras (EventNodeSelector x p) \<longleftrightarrow>
      1 < length (eventsOfBucket p) + length (errorsOfBucket p)
      \<and> numEventsOf p < length (eventsOfBucket p) \<and> truthy (extrasTarget p)"
    by (rule hasExtras_iff)
  have b: "hasExtras (EventNodeSelector x p) \<longrightarrow>
        extrasTarget p \<noteq> None \<and> numEventsOf p < length (eventsOfBucket p)"
    using a by (cases "extrasTarget p") simp_all
  have c: "1 < length (eventsOfBucket p) + length (errorsOfBucket p)
        \<and> length (eventsOfBucket p) \<le> numEventsOf p \<longrightarrow>
        dropdownChildren (EventNodeSelector x p) =
          errorItems x p (errorsOfBucket p)
          @ eventItems x p (errorsOfBucket p) (eventsOfBucket p)
        \<and> length (errorItems x p (errorsOfBucket p))
            = min (numEventsOf p) (length (errorsOfBucket p))"
    by (simp add: EventNodeSelector_dropdown extrasItem_cases errorItems_facts)
  have d: "\<not> hasExtras (rootNode x r loc org anch eDest tDest)"
    unfolding rootNode_def by (rule no_extras_without_target) simp
  have e: "\<not> hasExtras (parentNode x par loc org anch eDest tDest)"
    unfolding parentNode_def by (rule no_extras_without_target) simp
  have f: "\<not> hasExtras (currentNode x event cur loc org anch eDest tDest)"
    unfolding currentNode_def by (rule no_extras_without_target) simp
  from a b c d e f show ?thesis by blast
qed

text \<open>
  The theorem at seven children with a target, where the link is shown, and at one child
  with six errors, where five errors and the event are listed and nothing else.
\<close>

theorem overflow_item_gate_witness:
  "hasExtras (EventNodeSelector x0 (mkProps sevenEvents None (Some (Path ''/all'')) children_key))
   \<and> extrasTarget (mkProps sevenEvents None (Some (Path ''/all'')) children_key) \<noteq> None
   \<and> numEventsOf (mkProps sevenEvents None (Some (Path ''/all'')) children_key)
       < length (eventsOfBucket (mkProps sevenEvents None (Some (Path ''/all'')) children_key))
   \<and> 1 < length (eventsOfBucket (mkProps oneEventSixErrors None (Some (Path ''/all'')) children_key))
         + length (errorsOfBucket (mkProps oneEventSixErrors None (Some (Path ''/all'')) children_key))
   \<and> length (eventsOfBucket (mkProps oneEventSixErrors None (Some (Path ''/all'')) children_key))
       \<le> numEventsOf (mkProps oneEventSixErrors None (Some (Path ''/all'')) children_key)
   \<and> length (errorsOfBucket (mkProps oneEventSixErrors None (Some (Path ''/all'')) children_key)) = 6
   \<and> map item_key
        (dropdownChildren
           (EventNodeSelector x0 (mkProps oneEventSixErrors None (Some (Path ''/all'')) children_key)))
       = [''x1'', ''x2'', ''x3'', ''x4'', ''x5'', ''e1'']"
proof -
  let ?p = "mkProps sevenEvents None (Some (Path ''/all'')) children_key"
  let ?q = "mkProps oneEventSixErrors None (Some (Path ''/all'')) children_key"
  have ev: "eventsOfBucket ?p = sevenEvents" "errorsOfBucket ?p = []"
    by (simp_all add: bucket_defs fixture_defs)
  have n: "numEventsOf ?p = 5" "numEventsOf ?q = 5" "truthy (extrasTarget ?p)"
    by (simp_all add: numEventsOf_def mkProps_def)
  have l: "length sevenEvents = 7"
    by (simp add: sevenEvents_def)
  have h: "1 < length (eventsOfBucket ?p) + length (errorsOfBucket ?p)
      \<and> numEventsOf ?p < length (eventsOfBucket ?p) \<and> truthy (extrasTarget ?p)"
    by (simp add: ev n l)
  have a: "hasExtras (EventNodeSelector x0 ?p)"
    using overflow_item_gate [of x0 ?p, THEN conjunct1] h by blast
  have b: "extrasTarget ?p \<noteq> None \<and> numEventsOf ?p < length (eventsOfBucket ?p)"
    using overflow_item_gate [of x0 ?p, THEN conjunct2, THEN conjunct1] a by blast
  have evq: "eventsOfBucket ?q = oneEventSixErrors"
    by (simp add: bucket_defs fixture_defs)
  have erq: "errorsOfBucket ?q =
      map (\<lambda>i. \<lparr>event_id = i, project_slug = ''web'', transaction = ''/home''\<rparr>)
        [''x1'', ''x2'', ''x3'', ''x4'', ''x5'', ''x6'']"
    by (simp add: bucket_defs fixture_defs)
  have lq: "length (eventsOfBucket ?q) = 1"
    unfolding evq by (simp add: oneEventSixErrors_def)
  have l6: "length (errorsOfBucket ?q) = 6"
    unfolding erq by simp
  have hq: "1 < length (eventsOfBucket ?q) + length (errorsOfBucket ?q)
      \<and> length (eventsOfBucket ?q) \<le> numEventsOf ?q"
    by (simp only: lq l6 n) simp
  have c: "dropdownChildren (EventNodeSelector x0 ?q) =
          errorItems x0 ?q (errorsOfBucket ?q)
          @ eventItems x0 ?q (errorsOfBucket ?q) (eventsOfBucket ?q)"
    using overflow_item_gate [of x0 ?q, THEN conjunct2, THEN conjunct2, THEN conjunct1] hq
    by blast
  have k: "map item_key (dropdownChildren (EventNodeSelector x0 ?q))
       = [''x1'', ''x2'', ''x3'', ''x4'', ''x5'', ''e1'']"
    unfolding c map_append errorItems_facts eventItems_facts n evq erq
    by (simp add: oneEventSixErrors_def mkEvent_def)
  from a b hq l6 k show ?thesis by blast
qed

text \<open>
  Claim C1, as amended. When more than one item is left, the number of events left
  exceeds \<open>numEvents\<close>, and the node was given an \<open>extrasTarget\<close> that is truthy,
  \<open>EventNodeSelector\<close> returns a dropdown whose children are the error items (at most
  \<open>numEvents\<close>), then exactly \<open>numEvents\<close> event items, those of the first
  \<open>numEvents\<close> events, then exactly one plain \<open>DropdownItem\<close> that leads to the
  \<open>extrasTarget\<close>. With seven events, no errors and the cap five that is five event
  items and the link.
\<close>

theorem overflow_item_with_target:
  assumes "1 < length (eventsOfBucket p) + length (errorsOfBucket p)"
      and "numEventsOf p < length (eventsOfBucket p)"
      and "extrasTarget p = Some target"
      and "truthy (Some target)"
  shows
    "EventNodeSelector x p =
       DropdownLink
         (StyledEventNode (nodeText p (errorsOfBucket p))
            (dropdownHoverText p (errorsOfBucket p) (eventsOfBucket p)) None None
            (nodeType p (errorsOfBucket p)))
         (anchor p = AnchorRight)
         (errorItems x p (errorsOfBucket p)
          @ eventItems x p (errorsOfBucket p) (eventsOfBucket p)
          @ [DropdownItem (handleDropdownItem target (nodeKey p) (organization p) True)
               (dropdownHoverText p (errorsOfBucket p) (eventsOfBucket p))])
     \<and> length (eventItems x p (errorsOfBucket p) (eventsOfBucket p)) = numEventsOf p
     \<and> list_all is_DropdownNodeItem (eventItems x p (errorsOfBucket p) (eventsOfBucket p))
     \<and> map item_key (eventItems x p (errorsOfBucket p) (eventsOfBucket p))
         = map event_id (take (numEventsOf p) (eventsOfBucket p))
     \<and> length (errorItems x p (errorsOfBucket p))
         = min (numEventsOf p) (length (errorsOfBucket p))"
  using assms
  by (simp add: EventNodeSelector_dropdown extrasItem_cases errorItems_facts eventItems_facts)

text \<open>The theorem at seven ancestors without errors, cap five, with a target.\<close>

theorem overflow_item_with_target_witness:
  "1 < length (eventsOfBucket (mkProps sevenEvents None (Some (Path ''/all'')) ancestors_key))
       + length (errorsOfBucket (mkProps sevenEvents None (Some (Path ''/all'')) ancestors_key))
   \<and> numEventsOf (mkProps sevenEvents None (Some (Path ''/all'')) ancestors_key)
       < length (eventsOfBucket (mkProps sevenEvents None (Some (Path ''/all'')) ancestors_key))
   \<and> truthy (Some (Path ''/all''))
   \<and> errorsOfBucket (mkProps sevenEvents None (Some (Path ''/all'')) ancestors_key) = []
   \<and> dropdownChildren
        (EventNodeSelector x0 (mkProps sevenEvents None (Some (Path ''/all'')) ancestors_key))
       = eventItems x0 (mkProps sevenEvents None (Some (Path ''/all'')) ancestors_key) []
           sevenEvents
         @ [DropdownItem (handleDropdownItem (Path ''/all'') ancestors_key org0 True)
              (Tct ''View [eventPrefix] [eventType]'' ''ancestor'' ''transactions'')]
   \<and> map item_key
         (eventItems x0 (mkProps sevenEvents None (Some (Path ''/all'')) ancestors_key) []
            sevenEvents)
       = [''e1'', ''e2'', ''e3'', ''e4'', ''e5'']"
proof -
  let ?p = "mkProps sevenEvents None (Some (Path ''/all'')) ancestors_key"
  have ev: "eventsOfBucket ?p = sevenEvents"
    by (simp add: bucket_defs fixture_defs)
  have er: "errorsOfBucket ?p = []"
    by (simp add: bucket_defs fixture_defs)
  have n: "numEventsOf ?p = 5"
    by (simp add: numEventsOf_def mkProps_def)
  have l: "length sevenEvents = 7"
    by (simp add: sevenEvents_def)
  have h1: "1 < length (eventsOfBucket ?p) + length (errorsOfBucket ?p)"
    unfolding ev er l by simp
  have h2: "numEventsOf ?p < length (eventsOfBucket ?p)"
    unfolding ev n l by simp
  have h3: "extrasTarget ?p = Some (Path ''/all'')"
    by (simp add: mkProps_def)
  have h4: "truthy (Some (Path ''/all''))"
    by simp
  note t = overflow_item_with_target [OF h1 h2 h3 h4, of x0]
  have c: "dropdownChildren (EventNodeSelector x0 ?p)
       = eventItems x0 ?p [] sevenEvents
         @ [DropdownItem (handleDropdownItem (Path ''/all'') ancestors_key org0 True)
              (Tct ''View [eventPrefix] [eventType]'' ''ancestor'' ''transactions'')]"
    unfolding t [THEN conjunct1] ev er
    by (simp add: errorItems_def dropdownHoverText_def mkProps_def sevenEvents_def)
  have k: "map item_key (eventItems x0 ?p [] sevenEvents)
       = [''e1'', ''e2'', ''e3'', ''e4'', ''e5'']"
    using t [THEN conjunct2, THEN conjunct2, THEN conjunct2, THEN conjunct1]
    unfolding ev er n
    by (simp add: sevenEvents_def mkEvent_def)
  from h1 h2 h4 er c k show ?thesis by blast
qed

text \<open>
  Claim C1 as it was stated fails for a node without an \<open>extrasTarget\<close>: seven events,
  no errors, cap five; the dropdown lists the first five events and nothing after them.
\<close>

theorem no_overflow_item_without_target_counterexample:
  "1 < length (eventsOfBucket (mkProps sevenEvents None None ancestors_key))
       + length (errorsOfBucket (mkProps sevenEvents None None ancestors_key))
   \<and> numEventsOf (mkProps sevenEvents None None ancestors_key)
       < length (eventsOfBucket (mkProps sevenEvents None None ancestors_key))
   \<and> list_all is_DropdownNodeItem
        (dropdownChildren (EventNodeSelector x0 (mkProps sevenEvents None None ancestors_key)))
   \<and> map item_key
        (dropdownChildren (EventNodeSelector x0 (mkProps sevenEvents None None ancestors_key)))
       = [''e1'', ''e2'', ''e3'', ''e4'', ''e5'']
   \<and> \<not> hasExtras (EventNodeSelector x0 (mkProps sevenEvents None None ancestors_key))"
proof -
  let ?p = "mkProps sevenEvents None None ancestors_key"
  have ev: "eventsOfBucket ?p = sevenEvents"
    by (simp add: bucket_defs fixture_defs)
  have er: "errorsOfBucket ?p = []"
    by (simp add: bucket_defs fixture_defs)
  have n: "numEventsOf ?p = 5"
    by (simp add: numEventsOf_def mkProps_def)
  have l: "length sevenEvents = 7"
    by (simp add: sevenEvents_def)
  have h1: "1 < length (eventsOfBucket ?p) + length (errorsOfBucket ?p)"
    unfolding ev er l by simp
  have h2: "numEventsOf ?p < length (eventsOfBucket ?p)"
    unfolding ev n l by simp
  have x: "extrasTarget ?p = None"
    by (simp add: mkProps_def)
  have c: "dropdownChildren (EventNodeSelector x0 ?p) = eventItems x0 ?p [] sevenEvents"
    unfolding EventNodeSelector_dropdown [OF h1] ev er
    by (simp add: errorItems_def extrasItem_cases x)
  have a: "list_all is_DropdownNodeItem (dropdownChildren (EventNodeSelector x0 ?p))"
    unfolding c by (rule eventItems_facts)
  have k: "map item_key (dropdownChildren (EventNodeSelector x0 ?p))
       = [''e1'', ''e2'', ''e3'', ''e4'', ''e5'']"
    unfolding c eventItems_facts n by (simp add: sevenEvents_def mkEvent_def)
  have e: "\<not> hasExtras (EventNodeSelector x0 ?p)"
    using x by (rule no_extras_without_target)
  from h1 h2 a k e show ?thesis by blast
qed

subsection \<open>The order of the dropdown\<close>

text \<open>
  Claim C4. When more than one item is left, \<open>EventNodeSelector\<close> returns a dropdown
  whose children are the error items, then the event items, then the link to all events
  if there is one. The errors are those of the events in the order of the events and, for
  one event, in the order of its list, whatever events lie between them; the events are
  those passed in, in their order, without the current one. The error items are made
  from the first \<open>numEvents\<close> errors and the event items from the first \<open>numEvents\<close>
  events, item by item, so each group has at most \<open>numEvents\<close> items. When both
  groups fit under the cap (three errors and two events under a cap of five, say), the
  children are all error items followed by all event items, with no link after them.
\<close>

theorem dropdown_errors_then_events:
  assumes "1 < length (eventsOfBucket p) + length (errorsOfBucket p)"
  shows
    "EventNodeSelector x p =
       DropdownLink
         (StyledEventNode (nodeText p (errorsOfBucket p))
            (dropdownHoverText p (errorsOfBucket p) (eventsOfBucket p)) None None
            (nodeType p (errorsOfBucket p)))
         (anchor p = AnchorRight)
         (errorItems x p (errorsOfBucket p)
          @ eventItems x p (errorsOfBucket p) (eventsOfBucket p)
          @ extrasItem p (dropdownHoverText p (errorsOfBucket p) (eventsOfBucket p))
              (eventsOfBucket p))
     \<and> errorsOfBucket p = concat (map (errorsOfEvent (currentEvent p)) (events p))
     \<and> eventsOfBucket p =
         filter (\<lambda>e. case currentEvent p of None \<Rightarrow> True | Some c \<Rightarrow> event_id e \<noteq> ev_id c)
           (events p)
     \<and> map item_key (errorItems x p (errorsOfBucket p))
         = map event_id (take (numEventsOf p) (errorsOfBucket p))
     \<and> map item_key (eventItems x p (errorsOfBucket p) (eventsOfBucket p))
         = map event_id (take (numEventsOf p) (eventsOfBucket p))
     \<and> map item_subtextType (errorItems x p (errorsOfBucket p))
         = replicate (min (numEventsOf p) (length (errorsOfBucket p))) ''error''
     \<and> map item_subtextType (eventItems x p (errorsOfBucket p) (eventsOfBucket p))
         = replicate (min (numEventsOf p) (length (eventsOfBucket p))) ''default''
     \<and> length (errorItems x p (errorsOfBucket p)) \<le> numEventsOf p
     \<and> length (eventItems x p (errorsOfBucket p) (eventsOfBucket p)) \<le> numEventsOf p
     \<and> (length (errorsOfBucket p) \<le> numEventsOf p
          \<and> length (eventsOfBucket p) \<le> numEventsOf p \<longrightarrow>
         dropdownChildren (EventNodeSelector x p) =
           map (\<lambda>(i, error). errorItem x p i error) (enumerate 0 (errorsOfBucket p))
           @ map (\<lambda>(i, event). eventItem x p (errorsOfBucket p) i event)
               (enumerate 0 (eventsOfBucket p)))"
proof -
  note d = EventNodeSelector_dropdown [OF assms, of x]
  have e: "errorsOfBucket p = concat (map (errorsOfEvent (currentEvent p)) (events p))"
    by (rule errorsOfBucket_eq)
  have f: "eventsOfBucket p =
         filter (\<lambda>e. case currentEvent p of None \<Rightarrow> True | Some c \<Rightarrow> event_id e \<noteq> ev_id c)
           (events p)"
    by (simp add: eventsOfBucket_def filterCurrent_def split: option.splits)
  have g: "map item_subtextType (errorItems x p (errorsOfBucket p))
         = replicate (min (numEventsOf p) (length (errorsOfBucket p))) ''error''"
    unfolding errorItems_def errorItem_subtextTypes by simp
  have h: "map item_subtextType (eventItems x p (errorsOfBucket p) (eventsOfBucket p))
         = replicate (min (numEventsOf p) (length (eventsOfBucket p))) ''default''"
    unfolding eventItems_def eventItem_subtextTypes by simp
  have i: "length (errorsOfBucket p) \<le> numEventsOf p
          \<and> length (eventsOfBucket p) \<le> numEventsOf p \<longrightarrow>
         dropdownChildren (EventNodeSelector x p) =
           map (\<lambda>(i, error). errorItem x p i error) (enumerate 0 (errorsOfBucket p))
           @ map (\<lambda>(i, event). eventItem x p (errorsOfBucket p) i event)
               (enumerate 0 (eventsOfBucket p))"
    by (simp add: d extrasItem_cases errorItems_def eventItems_def)
  from d e f g h i show ?thesis
    by (simp add: errorItems_facts eventItems_facts)
qed

text \<open>
  The theorem at two descendants, the first with two errors and the second with one, cap
  five: the three errors come first, then the two events.
\<close>

theorem dropdown_errors_then_events_witness:
  "1 < length (eventsOfBucket (mkProps twoEventsThreeErrors None (Some (Path ''/all''))
                                 descendants_key))
       + length (errorsOfBucket (mkProps twoEventsThreeErrors None (Some (Path ''/all''))
                                   descendants_key))
   \<and> length (errorsOfBucket (mkProps twoEventsThreeErrors None (Some (Path ''/all''))
                                descendants_key)) = 3
   \<and> length (eventsOfBucket (mkProps twoEventsThreeErrors None (Some (Path ''/all''))
                                descendants_key)) = 2
   \<and> numEventsOf (mkProps twoEventsThreeErrors None (Some (Path ''/all'')) descendants_key) = 5
   \<and> map item_key
        (dropdownChildren
           (EventNodeSelector x0
              (mkProps twoEventsThreeErrors None (Some (Path ''/all'')) descendants_key)))
       = [''x1'', ''x2'', ''x3'', ''e1'', ''e2'']
   \<and> map item_subtextType
        (dropdownChildren
           (EventNodeSelector x0
              (mkProps twoEventsThreeErrors None (Some (Path ''/all'')) descendants_key)))
       = [''error'', ''error'', ''error'', ''default'', ''default'']"
proof -
  let ?p = "mkProps twoEventsThreeErrors None (Some (Path ''/all'')) descendants_key"
  have ev: "eventsOfBucket ?p = twoEventsThreeErrors"
    by (simp add: bucket_defs fixture_defs)
  have er: "errorsOfBucket ?p =
      map (\<lambda>i. \<lparr>event_id = i, project_slug = ''web'', transaction = ''/home''\<rparr>)
        [''x1'', ''x2'', ''x3'']"
    by (simp add: bucket_defs fixture_defs)
  have n: "numEventsOf ?p = 5"
    by (simp add: numEventsOf_def mkProps_def)
  have l2: "length (eventsOfBucket ?p) = 2"
    unfolding ev by (simp add: twoEventsThreeErrors_def)
  have l3: "length (errorsOfBucket ?p) = 3"
    unfolding er by simp
  have h: "1 < length (eventsOfBucket ?p) + length (errorsOfBucket ?p)"
    unfolding l2 l3 by simp
  have le: "length (errorsOfBucket ?p) \<le> numEventsOf ?p
      \<and> length (eventsOfBucket ?p) \<le> numEventsOf ?p"
    unfolding l2 l3 n by simp
  note t = dropdown_errors_then_events [OF h, of x0]
  have c: "dropdownChildren (EventNodeSelector x0 ?p) =
           map (\<lambda>(i, error). errorItem x0 ?p i error) (enumerate 0 (errorsOfBucket ?p))
           @ map (\<lambda>(i, event). eventItem x0 ?p (errorsOfBucket ?p) i event)
               (enumerate 0 (eventsOfBucket ?p))"
    using t le by blast
  have k: "map item_key (dropdownChildren (EventNodeSelector x0 ?p))
       = [''x1'', ''x2'', ''x3'', ''e1'', ''e2'']"
    unfolding c map_append errorItem_keys eventItem_keys ev er
    by (simp add: twoEventsThreeErrors_def mkEvent_def)
  have s: "map item_subtextType (dropdownChildren (EventNodeSelector x0 ?p))
       = [''error'', ''error'', ''error'', ''default'', ''default'']"
    unfolding c map_append errorItem_subtextTypes eventItem_subtextTypes l2 l3
    by (simp add: numeral_2_eq_2 numeral_3_eq_3)
  from h l3 l2 n k s show ?thesis by blast
qed

subsection \<open>The current event\<close>

text \<open>
  Claim C2, as amended. When the node of a bucket is given the current event, as the node
  of the current slot is in \<open>QuickTrace\<close>, its identifier does not appear among the
  items of the bucket: no hoisted error has it as \<open>event_id\<close>, no event that is left
  has it, the events that are left are exactly the events passed in whose \<open>event_id\<close>
  differs from it, and no item of the dropdown has it as key; in particular no item of
  the current node of \<open>QuickTrace\<close> has the identifier of the viewed event as key. (A
  single link leads to the one error or event that is left.)
\<close>

theorem current_event_excluded:
  assumes "currentEvent p = Some c"
  shows
    "(\<forall>error \<in> set (errorsOfBucket p). event_id error \<noteq> ev_id c)
     \<and> (\<forall>e \<in> set (eventsOfBucket p). event_id e \<noteq> ev_id c)
     \<and> eventsOfBucket p = filter (\<lambda>e. event_id e \<noteq> ev_id c) (events p)
     \<and> (\<forall>item \<in> set (dropdownChildren (EventNodeSelector x p)).
          is_DropdownNodeItem item \<longrightarrow> item_key item \<noteq> ev_id c)
     \<and> (\<forall>item \<in> set (dropdownChildren (currentNode x event cur loc org anch eDest tDest)).
          is_DropdownNodeItem item \<longrightarrow> item_key item \<noteq> ev_id event)"
proof -
  have a: "\<forall>error \<in> set (errorsOfBucket p). event_id error \<noteq> ev_id c"
  proof
    fix error
    assume "error \<in> set (errorsOfBucket p)"
    then have "keepError (currentEvent p) error"
      by (rule errorsOfBucket_kept)
    with assms show "event_id error \<noteq> ev_id c"
      by (auto simp add: keepError_def)
  qed
  have b: "eventsOfBucket p = filter (\<lambda>e. event_id e \<noteq> ev_id c) (events p)"
    using assms by (simp add: eventsOfBucket_def filterCurrent_def)
  have c: "\<forall>e \<in> set (eventsOfBucket p). event_id e \<noteq> ev_id c"
    by (simp add: b)
  have d: "\<forall>item \<in> set (dropdownChildren (EventNodeSelector x p)).
          is_DropdownNodeItem item \<longrightarrow> item_key item \<noteq> ev_id c"
  proof (intro ballI impI)
    fix item
    assume "item \<in> set (dropdownChildren (EventNodeSelector x p))"
      and "is_DropdownNodeItem item"
    with assms show "item_key item \<noteq> ev_id c"
      by (rule current_id_not_among_items)
  qed
  have e: "\<forall>item \<in> set (dropdownChildren (currentNode x event cur loc org anch eDest tDest)).
          is_DropdownNodeItem item \<longrightarrow> item_key item \<noteq> ev_id event"
  proof (intro ballI impI)
    let ?q = "\<lparr>location = loc, organization = org, events = [cur],
                text_prop = TArg ''This %s'' (toTitleCase x (ev_type event)),
                currentEvent = Some event, extrasTarget = None, numEvents = None,
                anchor = anch, nodeKey = current_key, errorDest = eDest,
                transactionDest = tDest\<rparr>"
    fix item
    assume "item \<in> set (dropdownChildren (currentNode x event cur loc org anch eDest tDest))"
      and n: "is_DropdownNodeItem item"
    then have i: "item \<in> set (dropdownChildren (EventNodeSelector x ?q))"
      by (simp only: currentNode_def)
    have "currentEvent ?q = Some event"
      by simp
    then show "item_key item \<noteq> ev_id event"
      using i n by (rule current_id_not_among_items)
  qed
  from a b c d e show ?thesis by blast
qed

text \<open>
  The theorem at the current slot with the viewed transaction \<open>c\<close>, whose copy in the
  bucket carries an error \<open>c\<close> and an error \<open>x1\<close>, and one more event \<open>e1\<close>: the
  error \<open>x1\<close> and the event \<open>e1\<close> are left.
\<close>

theorem current_event_excluded_witness:
  "currentEvent (mkProps [mkEvent ''c'' (Some [mkError ''c'', mkError ''x1'']), mkEvent ''e1'' None]
                   (Some viewedTransaction) None current_key) = Some viewedTransaction
   \<and> ev_id viewedTransaction = ''c''
   \<and> map event_id
        (errorsOfBucket
           (mkProps [mkEvent ''c'' (Some [mkError ''c'', mkError ''x1'']), mkEvent ''e1'' None]
              (Some viewedTransaction) None current_key)) = [''x1'']
   \<and> map event_id
        (eventsOfBucket
           (mkProps [mkEvent ''c'' (Some [mkError ''c'', mkError ''x1'']), mkEvent ''e1'' None]
              (Some viewedTransaction) None current_key)) = [''e1'']
   \<and> ev_id viewedTransaction
       \<notin> event_id `
         set (errorsOfBucket
                (mkProps [mkEvent ''c'' (Some [mkError ''c'', mkError ''x1'']),
                          mkEvent ''e1'' None]
                   (Some viewedTransaction) None current_key))
   \<and> ev_id viewedTransaction
       \<notin> event_id `
         set (eventsOfBucket
                (mkProps [mkEvent ''c'' (Some [mkError ''c'', mkError ''x1'']),
                          mkEvent ''e1'' None]
                   (Some viewedTransaction) None current_key))"
proof -
  let ?p = "mkProps [mkEvent ''c'' (Some [mkError ''c'', mkError ''x1'']), mkEvent ''e1'' None]
              (Some viewedTransaction) None current_key"
  have h: "currentEvent ?p = Some viewedTransaction"
    by (simp add: mkProps_def)
  have i: "ev_id viewedTransaction = ''c''"
    by (simp add: viewedTransaction_def)
  have er: "map event_id (errorsOfBucket ?p) = [''x1'']"
    by (simp add: bucket_defs fixture_defs)
  have ev: "map event_id (eventsOfBucket ?p) = [''e1'']"
    by (simp add: bucket_defs fixture_defs)
  note t = current_event_excluded [OF h, of x0]
  have g: "v \<notin> f ` S" if "\<forall>y \<in> S. f y \<noteq> v" for f :: "'a \<Rightarrow> string" and S v
    using that by auto
  have a: "ev_id viewedTransaction \<notin> event_id ` set (errorsOfBucket ?p)"
    using t [THEN conjunct1] by (rule g)
  have b: "ev_id viewedTransaction \<notin> event_id ` set (eventsOfBucket ?p)"
    using t [THEN conjunct2, THEN conjunct1] by (rule g)
  from h i er ev a b show ?thesis by blast
qed

text \<open>
  Claim C2 as it was stated, for every bucket, fails for the buckets next to the current
  slot: \<open>QuickTrace\<close> gives their nodes no current event, so nothing is excluded from
  them. With the viewed event \<open>c\<close> and children \<open>c\<close> and \<open>k\<close>, the dropdown of the
  children node lists \<open>c\<close>.
\<close>

theorem viewed_event_among_children_counterexample:
  "parseQuickTrace x0 (Inr traceWithViewedChild) viewedTransaction = Inr traceWithViewedChild
   \<and> ev_id viewedTransaction = ''c''
   \<and> children traceWithViewedChild = [mkEvent ''c'' None, mkEvent ''k'' None]
   \<and> QuickTrace x0 emptyStorage viewedTransaction (Inr traceWithViewedChild) ''/here'' org0
         AnchorLeft ''issue'' ''performance''
       = QuickTraceContainer
           [currentNode x0 viewedTransaction (mkEvent ''c'' None) ''/here'' org0 AnchorLeft
              ''issue'' ''performance'',
            TraceConnector,
            childrenNode x0 viewedTransaction [mkEvent ''c'' None, mkEvent ''k'' None] ''/here''
              org0 AnchorLeft ''issue'' ''performance'']
   \<and> map item_key
        (dropdownChildren
           (childrenNode x0 viewedTransaction [mkEvent ''c'' None, mkEvent ''k'' None] ''/here''
              org0 AnchorLeft ''issue'' ''performance''))
       = [''c'', ''k'']"
proof -
  let ?p = "\<lparr>location = ''/here'', organization = org0,
             events = [mkEvent ''c'' None, mkEvent ''k'' None],
             text_prop = Tn ''%s Child'' ''%s Children''
                           (length [mkEvent ''c'' None, mkEvent ''k'' None]),
             currentEvent = None,
             extrasTarget =
               Some (generateMultiTransactionsTarget x0 viewedTransaction
                       [mkEvent ''c'' None, mkEvent ''k'' None] org0 ''Children''),
             numEvents = None, anchor = AnchorLeft, nodeKey = children_key,
             errorDest = ''issue'', transactionDest = ''performance''\<rparr>"
  have h: "parseQuickTrace x0 (Inr traceWithViewedChild) viewedTransaction
      = Inr traceWithViewedChild"
    by (simp add: x0_def)
  have i: "ev_id viewedTransaction = ''c''"
    by (simp add: viewedTransaction_def)
  have c: "children traceWithViewedChild = [mkEvent ''c'' None, mkEvent ''k'' None]"
    by (simp add: traceWithViewedChild_def)
  have q: "QuickTrace x0 emptyStorage viewedTransaction (Inr traceWithViewedChild) ''/here'' org0
         AnchorLeft ''issue'' ''performance''
       = QuickTraceContainer
           [currentNode x0 viewedTransaction (mkEvent ''c'' None) ''/here'' org0 AnchorLeft
              ''issue'' ''performance'',
            TraceConnector,
            childrenNode x0 viewedTransaction [mkEvent ''c'' None, mkEvent ''k'' None] ''/here''
              org0 AnchorLeft ''issue'' ''performance'']"
    unfolding QuickTrace_parsed [OF h]
    by (simp add: traceWithViewedChild_def mkEvent_def)
  have ev: "eventsOfBucket ?p = [mkEvent ''c'' None, mkEvent ''k'' None]"
    by (simp add: eventsOfBucket_def filterCurrent_def)
  have er: "errorsOfBucket ?p = []"
    by (simp add: errorsOfBucket_def mkEvent_def)
  have n: "numEventsOf ?p = 5"
    by (simp add: numEventsOf_def)
  have m: "1 < length (eventsOfBucket ?p) + length (errorsOfBucket ?p)"
    unfolding ev er by simp
  have k: "map item_key
        (dropdownChildren
           (childrenNode x0 viewedTransaction [mkEvent ''c'' None, mkEvent ''k'' None] ''/here''
              org0 AnchorLeft ''issue'' ''performance''))
       = [''c'', ''k'']"
    unfolding childrenNode_def EventNodeSelector_dropdown [OF m] dropdownChildren.simps
      map_append errorItems_facts eventItems_facts n ev er
    by (simp add: extrasItem_cases mkEvent_def numEventsOf_def)
  from h i c q k show ?thesis by (intro conjI)
qed

text \<open>
  Claim C10, as amended. The loops that collect the errors run before the filter that removes the
  current event. So when the bucket holds an event with the current event's identifier,
  every error of that event whose own identifier differs from the current event's is
  among the hoisted errors, under the event's transaction name, although the event
  itself is not among the events that are left. The bucket is then not empty. If the
  error is the only item, the node links to it; otherwise the error has a position among
  the hoisted errors and, when that position is below the cap, the child of the dropdown
  at that position is the item of this error. (Past the cap it is cut off like any other
  hoisted error.)
\<close>

theorem errors_of_current_copy_kept:
  assumes "currentEvent p = Some c"
      and "e \<in> set (events p)" and "event_id e = ev_id c"
      and "errors e = Some errs" and "error \<in> set errs"
      and "event_id error \<noteq> ev_id c"
  shows
    "error\<lparr>transaction := transaction e\<rparr> \<in> set (errorsOfBucket p)
     \<and> e \<notin> set (eventsOfBucket p)
     \<and> 0 < length (eventsOfBucket p) + length (errorsOfBucket p)
     \<and> (length (eventsOfBucket p) + length (errorsOfBucket p) = 1 \<longrightarrow>
          EventNodeSelector x p =
            StyledEventNode (ErrorNodeContent (text_prop p))
              (T ''View the error for this Transaction'')
              (Some (generateSingleErrorTarget x (error\<lparr>transaction := transaction e\<rparr>)
                       (organization p) (location p) (errorDest p)))
              (Some (handleNode (nodeKey p) (organization p)))
              (if nodeKey p = current_key then ''error'' else ''warning''))
     \<and> (1 < length (eventsOfBucket p) + length (errorsOfBucket p) \<longrightarrow>
          (\<exists>i < length (errorsOfBucket p).
             errorsOfBucket p ! i = error\<lparr>transaction := transaction e\<rparr>
             \<and> (i < numEventsOf p \<longrightarrow>
                  dropdownChildren (EventNodeSelector x p) ! i
                    = errorItem x p i (error\<lparr>transaction := transaction e\<rparr>))))"
proof -
  let ?err = "error\<lparr>transaction := transaction e\<rparr>"
  have k: "keepError (currentEvent p) error"
    using assms(1,6) by (simp add: keepError_def)
  have a: "?err \<in> set (errorsOfBucket p)"
    using assms(2,4,5) k by (rule errorsOfBucket_member)
  have b: "e \<notin> set (eventsOfBucket p)"
    using assms(1,3) by (simp add: eventsOfBucket_def filterCurrent_def)
  from a have ne: "errorsOfBucket p \<noteq> []"
    by auto
  then have c: "0 < length (eventsOfBucket p) + length (errorsOfBucket p)"
    by simp
  have d: "EventNodeSelector x p =
            StyledEventNode (ErrorNodeContent (text_prop p))
              (T ''View the error for this Transaction'')
              (Some (generateSingleErrorTarget x ?err (organization p) (location p)
                       (errorDest p)))
              (Some (handleNode (nodeKey p) (organization p)))
              (if nodeKey p = current_key then ''error'' else ''warning'')"
    if one: "length (eventsOfBucket p) + length (errorsOfBucket p) = 1"
  proof -
    from one ne have "length (errorsOfBucket p) = 1" and ev: "eventsOfBucket p = []"
      by (cases "errorsOfBucket p"; cases "eventsOfBucket p"; simp)+
    with a have "errorsOfBucket p = [?err]"
      by (cases "errorsOfBucket p") auto
    then show ?thesis
      using ev by (rule EventNodeSelector_single_error)
  qed
  have f: "\<exists>i < length (errorsOfBucket p).
             errorsOfBucket p ! i = ?err
             \<and> (i < numEventsOf p \<longrightarrow>
                  dropdownChildren (EventNodeSelector x p) ! i = errorItem x p i ?err)"
    if many: "1 < length (eventsOfBucket p) + length (errorsOfBucket p)"
  proof -
    from a obtain i where i: "i < length (errorsOfBucket p)" "errorsOfBucket p ! i = ?err"
      by (auto simp add: in_set_conv_nth)
    have "dropdownChildren (EventNodeSelector x p) ! i = errorItem x p i ?err"
      if "i < numEventsOf p"
    proof -
      from i(1) that have "i < length (errorItems x p (errorsOfBucket p))"
        by (simp add: errorItems_facts)
      then have "dropdownChildren (EventNodeSelector x p) ! i
          = errorItems x p (errorsOfBucket p) ! i"
        by (simp add: EventNodeSelector_dropdown [OF many] nth_append)
      also have "\<dots> = errorItem x p i (errorsOfBucket p ! i)"
        using i(1) that by (rule errorItems_nth)
      finally show ?thesis
        by (simp only: i(2))
    qed
    with i show ?thesis by blast
  qed
  from a b c d f show ?thesis by blast
qed

text \<open>
  The theorem at the current slot of the viewed transaction \<open>c\<close>, whose copy in the
  bucket carries the errors \<open>x1\<close> and \<open>x2\<close>: the copy is removed and the dropdown
  lists the two errors, the item of \<open>x2\<close> among them.
\<close>

theorem errors_of_current_copy_kept_witness:
  "currentEvent (mkProps [mkEvent ''c'' (Some [mkError ''x1'', mkError ''x2''])]
                   (Some viewedTransaction) None current_key) = Some viewedTransaction
   \<and> mkEvent ''c'' (Some [mkError ''x1'', mkError ''x2''])
       \<in> set (events (mkProps [mkEvent ''c'' (Some [mkError ''x1'', mkError ''x2''])]
                          (Some viewedTransaction) None current_key))
   \<and> event_id (mkEvent ''c'' (Some [mkError ''x1'', mkError ''x2''])) = ev_id viewedTransaction
   \<and> errors (mkEvent ''c'' (Some [mkError ''x1'', mkError ''x2'']))
       = Some [mkError ''x1'', mkError ''x2'']
   \<and> mkError ''x2'' \<in> set [mkError ''x1'', mkError ''x2'']
   \<and> event_id (mkError ''x2'') \<noteq> ev_id viewedTransaction
   \<and> (mkError ''x2'')\<lparr>transaction := ''/home''\<rparr>
       \<in> set (errorsOfBucket (mkProps [mkEvent ''c'' (Some [mkError ''x1'', mkError ''x2''])]
                                  (Some viewedTransaction) None current_key))
   \<and> mkEvent ''c'' (Some [mkError ''x1'', mkError ''x2''])
       \<notin> set (eventsOfBucket (mkProps [mkEvent ''c'' (Some [mkError ''x1'', mkError ''x2''])]
                                  (Some viewedTransaction) None current_key))
   \<and> 1 < length (eventsOfBucket (mkProps [mkEvent ''c'' (Some [mkError ''x1'', mkError ''x2''])]
                                    (Some viewedTransaction) None current_key))
         + length (errorsOfBucket (mkProps [mkEvent ''c'' (Some [mkError ''x1'', mkError ''x2''])]
                                     (Some viewedTransaction) None current_key))
   \<and> map item_key
        (dropdownChildren
           (EventNodeSelector x0
              (mkProps [mkEvent ''c'' (Some [mkError ''x1'', mkError ''x2''])]
                 (Some viewedTransaction) None current_key)))
       = [''x1'', ''x2'']
   \<and> (\<exists>i < 2.
         dropdownChildren
           (EventNodeSelector x0
              (mkProps [mkEvent ''c'' (Some [mkError ''x1'', mkError ''x2''])]
                 (Some viewedTransaction) None current_key)) ! i
         = errorItem x0
             (mkProps [mkEvent ''c'' (Some [mkError ''x1'', mkError ''x2''])]
                (Some viewedTransaction) None current_key)
             i ((mkError ''x2'')\<lparr>transaction := ''/home''\<rparr>))"
proof -
  let ?e = "mkEvent ''c'' (Some [mkError ''x1'', mkError ''x2''])"
  let ?p = "mkProps [?e] (Some viewedTransaction) None current_key"
  have h1: "currentEvent ?p = Some viewedTransaction"
    by (simp add: mkProps_def)
  have h2: "?e \<in> set (events ?p)"
    by (simp add: mkProps_def)
  have h3: "event_id ?e = ev_id viewedTransaction"
    by (simp add: mkEvent_def viewedTransaction_def)
  have h4: "errors ?e = Some [mkError ''x1'', mkError ''x2'']"
    by (simp add: mkEvent_def)
  have h5: "mkError ''x2'' \<in> set [mkError ''x1'', mkError ''x2'']"
    by simp
  have h6: "event_id (mkError ''x2'') \<noteq> ev_id viewedTransaction"
    by (simp add: mkError_def viewedTransaction_def)
  note t = errors_of_current_copy_kept [OF h1 h2 h3 h4 h5 h6, of x0]
  have tr: "transaction ?e = ''/home''"
    by (simp add: mkEvent_def)
  have a: "(mkError ''x2'')\<lparr>transaction := ''/home''\<rparr> \<in> set (errorsOfBucket ?p)"
    using t [THEN conjunct1] unfolding tr .
  have b: "?e \<notin> set (eventsOfBucket ?p)"
    using t [THEN conjunct2, THEN conjunct1] .
  have ev: "eventsOfBucket ?p = []"
    by (simp add: bucket_defs fixture_defs)
  have er: "errorsOfBucket ?p =
      map (\<lambda>i. \<lparr>event_id = i, project_slug = ''web'', transaction = ''/home''\<rparr>)
        [''x1'', ''x2'']"
    by (simp add: bucket_defs fixture_defs)
  have l: "length (errorsOfBucket ?p) = 2"
    unfolding er by simp
  have n: "numEventsOf ?p = 5"
    by (simp add: numEventsOf_def mkProps_def)
  have m: "1 < length (eventsOfBucket ?p) + length (errorsOfBucket ?p)"
    unfolding ev er by simp
  have k: "map item_key (dropdownChildren (EventNodeSelector x0 ?p)) = [''x1'', ''x2'']"
    unfolding EventNodeSelector_dropdown [OF m] dropdownChildren.simps map_append
      errorItems_facts eventItems_facts n ev er
    by (simp add: extrasItem_cases)
  from t [THEN conjunct2, THEN conjunct2, THEN conjunct2, THEN conjunct2, THEN mp, OF m]
  obtain i where i: "i < length (errorsOfBucket ?p)"
      "i < numEventsOf ?p \<longrightarrow>
         dropdownChildren (EventNodeSelector x0 ?p) ! i
           = errorItem x0 ?p i ((mkError ''x2'')\<lparr>transaction := transaction ?e\<rparr>)"
    by blast
  from i(1) have "i < numEventsOf ?p"
    unfolding l n by simp
  with i have "i < 2 \<and> dropdownChildren (EventNodeSelector x0 ?p) ! i
           = errorItem x0 ?p i ((mkError ''x2'')\<lparr>transaction := ''/home''\<rparr>)"
    unfolding l tr by blast
  then have g: "\<exists>i < 2. dropdownChildren (EventNodeSelector x0 ?p) ! i
           = errorItem x0 ?p i ((mkError ''x2'')\<lparr>transaction := ''/home''\<rparr>)"
    by blast
  from h1 h2 h3 h4 h5 h6 a b m k g show ?thesis by blast
qed

text \<open>
  Claim C10 as it was stated, with every such error displayed, fails past the cap: in
  the current slot of the viewed transaction \<open>c\<close>, whose copy carries six errors, the
  error \<open>x6\<close> is among the hoisted errors, but the dropdown lists the first five errors
  and nothing else.
\<close>

theorem sixth_error_of_current_copy_cut_counterexample:
  "currentEvent (mkProps [viewedCopySixErrors] (Some viewedTransaction) None current_key)
     = Some viewedTransaction
   \<and> viewedCopySixErrors
       \<in> set (events (mkProps [viewedCopySixErrors] (Some viewedTransaction) None current_key))
   \<and> event_id viewedCopySixErrors = ev_id viewedTransaction
   \<and> errors viewedCopySixErrors
       = Some [mkError ''x1'', mkError ''x2'', mkError ''x3'', mkError ''x4'', mkError ''x5'',
               mkError ''x6'']
   \<and> event_id (mkError ''x6'') \<noteq> ev_id viewedTransaction
   \<and> (mkError ''x6'')\<lparr>transaction := ''/home''\<rparr>
       \<in> set (errorsOfBucket
                (mkProps [viewedCopySixErrors] (Some viewedTransaction) None current_key))
   \<and> eventsOfBucket (mkProps [viewedCopySixErrors] (Some viewedTransaction) None current_key)
       = []
   \<and> list_all is_DropdownNodeItem
        (dropdownChildren
           (EventNodeSelector x0
              (mkProps [viewedCopySixErrors] (Some viewedTransaction) None current_key)))
   \<and> map item_key
        (dropdownChildren
           (EventNodeSelector x0
              (mkProps [viewedCopySixErrors] (Some viewedTransaction) None current_key)))
       = [''x1'', ''x2'', ''x3'', ''x4'', ''x5'']"
proof -
  let ?p = "mkProps [viewedCopySixErrors] (Some viewedTransaction) None current_key"
  have h1: "currentEvent ?p = Some viewedTransaction"
    by (simp add: mkProps_def)
  have h2: "viewedCopySixErrors \<in> set (events ?p)"
    by (simp add: mkProps_def)
  have h3: "event_id viewedCopySixErrors = ev_id viewedTransaction"
    by (simp add: viewedCopySixErrors_def mkEvent_def viewedTransaction_def)
  have h4: "errors viewedCopySixErrors
       = Some [mkError ''x1'', mkError ''x2'', mkError ''x3'', mkError ''x4'', mkError ''x5'',
               mkError ''x6'']"
    by (simp add: viewedCopySixErrors_def mkEvent_def)
  have h6: "event_id (mkError ''x6'') \<noteq> ev_id viewedTransaction"
    by (simp add: mkError_def viewedTransaction_def)
  have ev: "eventsOfBucket ?p = []"
    by (simp add: bucket_defs fixture_defs viewedCopySixErrors_def)
  have er: "errorsOfBucket ?p =
      map (\<lambda>i. \<lparr>event_id = i, project_slug = ''web'', transaction = ''/home''\<rparr>)
        [''x1'', ''x2'', ''x3'', ''x4'', ''x5'', ''x6'']"
    by (simp add: bucket_defs fixture_defs viewedCopySixErrors_def)
  have a: "(mkError ''x6'')\<lparr>transaction := ''/home''\<rparr> \<in> set (errorsOfBucket ?p)"
    unfolding er by (simp add: mkError_def)
  have n: "numEventsOf ?p = 5"
    by (simp add: numEventsOf_def mkProps_def)
  have m: "1 < length (eventsOfBucket ?p) + length (errorsOfBucket ?p)"
    unfolding ev er by simp
  have x: "extrasTarget ?p = None"
    by (simp add: mkProps_def)
  have c: "dropdownChildren (EventNodeSelector x0 ?p) = errorItems x0 ?p (errorsOfBucket ?p)"
    unfolding EventNodeSelector_dropdown [OF m] dropdownChildren.simps
    by (simp add: ev eventItems_def extrasItem_cases)
  have l: "list_all is_DropdownNodeItem (dropdownChildren (EventNodeSelector x0 ?p))"
    unfolding c by (rule errorItems_facts)
  have k: "map item_key (dropdownChildren (EventNodeSelector x0 ?p))
       = [''x1'', ''x2'', ''x3'', ''x4'', ''x5'']"
    unfolding c errorItems_facts n er by simp
  from h1 h2 h3 h4 h6 a ev l k show ?thesis by (intro conjI)
qed

subsection \<open>The order of the nodes\<close>

text \<open>
  Claim C3, as amended. After a successful parse \<open>QuickTrace\<close> returns the container
  with, in this order: the root node and a connector if there is a root; the ancestors
  node and a connector if there are ancestors; the parent node and a connector if there
  is a parent; the current node, always; what \<open>MissingServiceNode\<close> renders, if the
  current event reports a missing child service; a connector and the children node if
  there are children; a connector and the descendants node if there are descendants. A
  bucket that is absent or empty adds neither node nor connector, and for these buckets,
  which get no current event, being empty is the same as having no errors and no events
  to show. In particular, with a root, a parent and children, no ancestors and no
  descendants, and the placeholder not shown (the current event reports no missing child
  service, or the hide flag is set), the children of the container are root node,
  connector, parent node, connector, current node, connector, children node.
\<close>

theorem quick_trace_order:
  assumes "parseQuickTrace x quickTrace event = Inr pq"
  shows
    "QuickTrace x ls event quickTrace loc org anch eDest tDest =
       QuickTraceContainer
         ((case root pq of
             Some r \<Rightarrow> [rootNode x r loc org anch eDest tDest, TraceConnector]
           | None \<Rightarrow> [])
          @ (case nonEmpty (ancestors pq) of
               Some anc \<Rightarrow> [ancestorsNode x event anc loc org anch eDest tDest, TraceConnector]
             | None \<Rightarrow> [])
          @ (case parent pq of
               Some par \<Rightarrow> [parentNode x par loc org anch eDest tDest, TraceConnector]
             | None \<Rightarrow> [])
          @ [currentNode x event (current pq) loc org anch eDest tDest]
          @ (if (case missing_service (current pq) of Some m \<Rightarrow> child m | None \<Rightarrow> False)
             then MissingServiceNode_render (MissingServiceNode_construct ls) anch
             else [])
          @ (if children pq \<noteq> []
             then [TraceConnector, childrenNode x event (children pq) loc org anch eDest tDest]
             else [])
          @ (case nonEmpty (descendants pq) of
               Some des \<Rightarrow> [TraceConnector, descendantsNode x event des loc org anch eDest tDest]
             | None \<Rightarrow> []))
     \<and> (nonEmpty (ancestors pq) = None \<longleftrightarrow> ancestors pq = None \<or> ancestors pq = Some [])
     \<and> (nonEmpty (descendants pq) = None \<longleftrightarrow> descendants pq = None \<or> descendants pq = Some [])
     \<and> (currentEvent p = None \<longrightarrow>
          (length (eventsOfBucket p) + length (errorsOfBucket p) = 0 \<longleftrightarrow> events p = []))
     \<and> (root pq = Some r \<and> parent pq = Some par \<and> children pq \<noteq> []
          \<and> nonEmpty (ancestors pq) = None \<and> nonEmpty (descendants pq) = None
          \<and> (\<not> (case missing_service (current pq) of Some m \<Rightarrow> child m | None \<Rightarrow> False)
               \<or> readMissingServiceState ls) \<longrightarrow>
          QuickTrace x ls event quickTrace loc org anch eDest tDest =
            QuickTraceContainer
              [rootNode x r loc org anch eDest tDest, TraceConnector,
               parentNode x par loc org anch eDest tDest, TraceConnector,
               currentNode x event (current pq) loc org anch eDest tDest,
               TraceConnector,
               childrenNode x event (children pq) loc org anch eDest tDest])"
proof -
  have a: "QuickTrace x ls event quickTrace loc org anch eDest tDest =
       QuickTraceContainer
         ((case root pq of
             Some r \<Rightarrow> [rootNode x r loc org anch eDest tDest, TraceConnector]
           | None \<Rightarrow> [])
          @ (case nonEmpty (ancestors pq) of
               Some anc \<Rightarrow> [ancestorsNode x event anc loc org anch eDest tDest, TraceConnector]
             | None \<Rightarrow> [])
          @ (case parent pq of
               Some par \<Rightarrow> [parentNode x par loc org anch eDest tDest, TraceConnector]
             | None \<Rightarrow> [])
          @ [currentNode x event (current pq) loc org anch eDest tDest]
          @ (if (case missing_service (current pq) of Some m \<Rightarrow> child m | None \<Rightarrow> False)
             then MissingServiceNode_render (MissingServiceNode_construct ls) anch
             else [])
          @ (if children pq \<noteq> []
             then [TraceConnector, childrenNode x event (children pq) loc org anch eDest tDest]
             else [])
          @ (case nonEmpty (descendants pq) of
               Some des \<Rightarrow> [TraceConnector, descendantsNode x event des loc org anch eDest tDest]
             | None \<Rightarrow> []))"
    using assms by (rule QuickTrace_parsed)
  have b: "nonEmpty v = None \<longleftrightarrow> v = None \<or> v = Some []" for v :: "QuickTraceEvent list option"
    by (cases v rule: nonEmpty.cases) simp_all
  have c: "currentEvent p = None \<longrightarrow>
          (length (eventsOfBucket p) + length (errorsOfBucket p) = 0 \<longleftrightarrow> events p = [])"
    using count_zero_iff_empty [of p] by blast
  have d: "QuickTrace x ls event quickTrace loc org anch eDest tDest =
            QuickTraceContainer
              [rootNode x r loc org anch eDest tDest, TraceConnector,
               parentNode x par loc org anch eDest tDest, TraceConnector,
               currentNode x event (current pq) loc org anch eDest tDest,
               TraceConnector,
               childrenNode x event (children pq) loc org anch eDest tDest]"
    if "root pq = Some r" "parent pq = Some par" "children pq \<noteq> []"
       "nonEmpty (ancestors pq) = None" "nonEmpty (descendants pq) = None"
       "\<not> (case missing_service (current pq) of Some m \<Rightarrow> child m | None \<Rightarrow> False)
               \<or> readMissingServiceState ls"
    using that
    by (auto simp add: a MissingServiceNode_render_def MissingServiceNode_construct_def)
  from a b c d show ?thesis by blast
qed


text \<open>The theorem at the small trace, with nothing in local storage.\<close>

theorem quick_trace_order_witness:
  "parseQuickTrace x0 (Inr smallTrace) viewedTransaction = Inr smallTrace
   \<and> root smallTrace = Some (mkEvent ''r'' None)
   \<and> parent smallTrace = Some (mkEvent ''p'' None)
   \<and> children smallTrace = [mkEvent ''k'' None]
   \<and> nonEmpty (ancestors smallTrace) = None
   \<and> nonEmpty (descendants smallTrace) = None
   \<and> missing_service (current smallTrace) = None
   \<and> QuickTrace x0 emptyStorage viewedTransaction (Inr smallTrace) ''/here'' org0 AnchorLeft
         ''issue'' ''performance''
       = QuickTraceContainer
           [rootNode x0 (mkEvent ''r'' None) ''/here'' org0 AnchorLeft ''issue'' ''performance'',
            TraceConnector,
            parentNode x0 (mkEvent ''p'' None) ''/here'' org0 AnchorLeft ''issue''
              ''performance'',
            TraceConnector,
            currentNode x0 viewedTransaction (mkEvent ''c'' None) ''/here'' org0 AnchorLeft
              ''issue'' ''performance'',
            TraceConnector,
            childrenNode x0 viewedTransaction [mkEvent ''k'' None] ''/here'' org0 AnchorLeft
              ''issue'' ''performance'']"
proof -
  have h: "parseQuickTrace x0 (Inr smallTrace) viewedTransaction = Inr smallTrace"
    by (simp add: x0_def)
  have r: "root smallTrace = Some (mkEvent ''r'' None)"
    and p: "parent smallTrace = Some (mkEvent ''p'' None)"
    and c: "children smallTrace = [mkEvent ''k'' None]"
    and a: "nonEmpty (ancestors smallTrace) = None"
    and d: "nonEmpty (descendants smallTrace) = None"
    and cu: "current smallTrace = mkEvent ''c'' None"
    by (simp_all add: smallTrace_def)
  have m: "missing_service (current smallTrace) = None"
    by (simp add: smallTrace_def mkEvent_def)
  have g: "root smallTrace = Some (mkEvent ''r'' None)
      \<and> parent smallTrace = Some (mkEvent ''p'' None) \<and> children smallTrace \<noteq> []
      \<and> nonEmpty (ancestors smallTrace) = None \<and> nonEmpty (descendants smallTrace) = None
      \<and> (\<not> (case missing_service (current smallTrace) of
                   Some m \<Rightarrow> child m | None \<Rightarrow> False)
           \<or> readMissingServiceState emptyStorage)"
    by (simp add: r p c a d m)
  have q: "QuickTrace x0 emptyStorage viewedTransaction (Inr smallTrace) ''/here'' org0 AnchorLeft
         ''issue'' ''performance''
       = QuickTraceContainer
           [rootNode x0 (mkEvent ''r'' None) ''/here'' org0 AnchorLeft ''issue'' ''performance'',
            TraceConnector,
            parentNode x0 (mkEvent ''p'' None) ''/here'' org0 AnchorLeft ''issue''
              ''performance'',
            TraceConnector,
            currentNode x0 viewedTransaction (current smallTrace) ''/here'' org0 AnchorLeft
              ''issue'' ''performance'',
            TraceConnector,
            childrenNode x0 viewedTransaction (children smallTrace) ''/here'' org0 AnchorLeft
              ''issue'' ''performance'']"
    using quick_trace_order [OF h, THEN conjunct2, THEN conjunct2, THEN conjunct2,
        THEN conjunct2, THEN mp, OF g] .
  from h r p c a d m q [unfolded cu c] show ?thesis by blast
qed

text \<open>
  Claim C3 as it was stated fails when the current event reports a missing child service
  and the hide flag is not set: with a root, a parent and one child, no ancestors and no
  descendants, a connector and the placeholder node stand between the current node and
  the connector of the children, nine elements instead of the seven of the claim.
\<close>

theorem placeholder_between_current_and_children_counterexample:
  "parseQuickTrace x0 (Inr smallTraceMissing) viewedTransaction = Inr smallTraceMissing
   \<and> root smallTraceMissing = Some (mkEvent ''r'' None)
   \<and> parent smallTraceMissing = Some (mkEvent ''p'' None)
   \<and> children smallTraceMissing = [mkEvent ''k'' None]
   \<and> ancestors smallTraceMissing = Some []
   \<and> descendants smallTraceMissing = None
   \<and> QuickTrace x0 emptyStorage viewedTransaction (Inr smallTraceMissing) ''/here'' org0
         AnchorLeft ''issue'' ''performance''
       = QuickTraceContainer
           [rootNode x0 (mkEvent ''r'' None) ''/here'' org0 AnchorLeft ''issue'' ''performance'',
            TraceConnector,
            parentNode x0 (mkEvent ''p'' None) ''/here'' org0 AnchorLeft ''issue''
              ''performance'',
            TraceConnector,
            currentNode x0 viewedTransaction (current smallTraceMissing) ''/here'' org0
              AnchorLeft ''issue'' ''performance'',
            TraceConnector,
            DropdownLink (EventNode ''white'' (T ''???'')) False
              [ExternalDropdownLink
                 ''https://docs.sentry.io/platforms/javascript/performance/connect-services/''
                 ''Connect to a service'',
               DismissItem dismissMissingServiceHandler],
            TraceConnector,
            childrenNode x0 viewedTransaction [mkEvent ''k'' None] ''/here'' org0 AnchorLeft
              ''issue'' ''performance'']
   \<and> QuickTrace x0 emptyStorage viewedTransaction (Inr smallTraceMissing) ''/here'' org0
         AnchorLeft ''issue'' ''performance''
       \<noteq> QuickTraceContainer
           [rootNode x0 (mkEvent ''r'' None) ''/here'' org0 AnchorLeft ''issue'' ''performance'',
            TraceConnector,
            parentNode x0 (mkEvent ''p'' None) ''/here'' org0 AnchorLeft ''issue''
              ''performance'',
            TraceConnector,
            currentNode x0 viewedTransaction (current smallTraceMissing) ''/here'' org0
              AnchorLeft ''issue'' ''performance'',
            TraceConnector,
            childrenNode x0 viewedTransaction [mkEvent ''k'' None] ''/here'' org0 AnchorLeft
              ''issue'' ''performance'']"
proof -
  have h: "parseQuickTrace x0 (Inr smallTraceMissing) viewedTransaction = Inr smallTraceMissing"
    by (simp add: x0_def)
  have r: "root smallTraceMissing = Some (mkEvent ''r'' None)"
    and p: "parent smallTraceMissing = Some (mkEvent ''p'' None)"
    and c: "children smallTraceMissing = [mkEvent ''k'' None]"
    and a: "ancestors smallTraceMissing = Some []"
    and d: "descendants smallTraceMissing = None"
    by (simp_all add: smallTraceMissing_def smallTrace_def)
  have m: "missing_service (current smallTraceMissing) = Some \<lparr>child = True\<rparr>"
    by (simp add: smallTraceMissing_def)
  have s: "readMissingServiceState emptyStorage = False"
    by (simp add: readMissingServiceState_def emptyStorage_def)
  have q: "QuickTrace x0 emptyStorage viewedTransaction (Inr smallTraceMissing) ''/here'' org0
         AnchorLeft ''issue'' ''performance''
       = QuickTraceContainer
           [rootNode x0 (mkEvent ''r'' None) ''/here'' org0 AnchorLeft ''issue'' ''performance'',
            TraceConnector,
            parentNode x0 (mkEvent ''p'' None) ''/here'' org0 AnchorLeft ''issue''
              ''performance'',
            TraceConnector,
            currentNode x0 viewedTransaction (current smallTraceMissing) ''/here'' org0
              AnchorLeft ''issue'' ''performance'',
            TraceConnector,
            DropdownLink (EventNode ''white'' (T ''???'')) False
              [ExternalDropdownLink
                 ''https://docs.sentry.io/platforms/javascript/performance/connect-services/''
                 ''Connect to a service'',
               DismissItem dismissMissingServiceHandler],
            TraceConnector,
            childrenNode x0 viewedTransaction [mkEvent ''k'' None] ''/here'' org0 AnchorLeft
              ''issue'' ''performance'']"
    unfolding QuickTrace_def h
    by (simp add: Let_def r p c a d m s MissingServiceNode_render_def
          MissingServiceNode_construct_def)
  have n: "QuickTrace x0 emptyStorage viewedTransaction (Inr smallTraceMissing) ''/here'' org0
         AnchorLeft ''issue'' ''performance''
       \<noteq> QuickTraceContainer
           [rootNode x0 (mkEvent ''r'' None) ''/here'' org0 AnchorLeft ''issue'' ''performance'',
            TraceConnector,
            parentNode x0 (mkEvent ''p'' None) ''/here'' org0 AnchorLeft ''issue''
              ''performance'',
            TraceConnector,
            currentNode x0 viewedTransaction (current smallTraceMissing) ''/here'' org0
              AnchorLeft ''issue'' ''performance'',
            TraceConnector,
            childrenNode x0 viewedTransaction [mkEvent ''k'' None] ''/here'' org0 AnchorLeft
              ''issue'' ''performance'']"
    unfolding q by simp
  from h r p c a d q n show ?thesis by blast
qed

subsection \<open>A failing parser\<close>

text \<open>
  Claim C5. When \<open>parseQuickTrace\<close> throws, \<open>QuickTrace\<close> returns the fragment that
  holds the em dash and nothing else; the error goes no further, the result being an
  element like any other. When \<open>parseQuickTrace\<close> returns, \<open>QuickTrace\<close> returns the
  container, which holds at least the current node.
\<close>

theorem parse_failure_recovered:
  "(parseQuickTrace x quickTrace event = Inl err \<longrightarrow>
      QuickTrace x ls event quickTrace loc org anch eDest tDest = Fragment em_dash)
   \<and> (parseQuickTrace x quickTrace event = Inr pq \<longrightarrow>
      (\<exists>nodes.
         QuickTrace x ls event quickTrace loc org anch eDest tDest = QuickTraceContainer nodes
         \<and> currentNode x event (current pq) loc org anch eDest tDest \<in> set nodes))"
  by (auto simp add: QuickTrace_def Let_def split: option.splits)

text \<open>The theorem at a payload that makes the parser throw and at the small trace.\<close>

theorem parse_failure_recovered_witness:
  "parseQuickTrace x0 (Inl ''Current event not in quick trace'') viewedTransaction
     = Inl ''Current event not in quick trace''
   \<and> QuickTrace x0 emptyStorage viewedTransaction (Inl ''Current event not in quick trace'')
         ''/here'' org0 AnchorLeft ''issue'' ''performance''
       = Fragment [CHR 0xE2, CHR 0x80, CHR 0x94]
   \<and> parseQuickTrace x0 (Inr smallTrace) viewedTransaction = Inr smallTrace
   \<and> (\<exists>nodes.
         QuickTrace x0 emptyStorage viewedTransaction (Inr smallTrace) ''/here'' org0 AnchorLeft
           ''issue'' ''performance'' = QuickTraceContainer nodes
         \<and> currentNode x0 viewedTransaction (current smallTrace) ''/here'' org0 AnchorLeft
             ''issue'' ''performance'' \<in> set nodes)"
proof -
  have h1: "parseQuickTrace x0 (Inl ''Current event not in quick trace'') viewedTransaction
     = Inl ''Current event not in quick trace''"
    by (simp add: x0_def)
  have h2: "parseQuickTrace x0 (Inr smallTrace) viewedTransaction = Inr smallTrace"
    by (simp add: x0_def)
  have a: "QuickTrace x0 emptyStorage viewedTransaction (Inl ''Current event not in quick trace'')
         ''/here'' org0 AnchorLeft ''issue'' ''performance''
       = Fragment [CHR 0xE2, CHR 0x80, CHR 0x94]"
    using parse_failure_recovered [THEN conjunct1, THEN mp, OF h1]
    by (simp add: em_dash_def)
  have b: "\<exists>nodes.
         QuickTrace x0 emptyStorage viewedTransaction (Inr smallTrace) ''/here'' org0 AnchorLeft
           ''issue'' ''performance'' = QuickTraceContainer nodes
         \<and> currentNode x0 viewedTransaction (current smallTrace) ''/here'' org0 AnchorLeft
             ''issue'' ''performance'' \<in> set nodes"
    using parse_failure_recovered [THEN conjunct2, THEN mp, OF h2] .
  from h1 a h2 b show ?thesis by blast
qed

subsection \<open>Dismissing the missing-service node\<close>

text \<open>
  Claim C6. The component has one flag, \<open>hideMissing\<close>: hidden or visible. A newly
  constructed component is hidden exactly when local storage holds \<open>1\<close> under the key;
  a hidden component renders nothing and a visible one renders the placeholder. Dismiss
  writes \<open>1\<close> under the key and hides the component. Along any sequence of dismissals
  and constructions from a first construction, a hidden component stays hidden whatever
  happens next; and from a dismissal on, through any further dismissals and
  constructions, the component is hidden, the flag is \<open>1\<close>, the component renders
  nothing, and \<open>QuickTrace\<close> with that local storage shows no placeholder.
\<close>

theorem dismissal_is_permanent:
  "(hideMissing (MissingServiceNode_construct ls) \<longleftrightarrow> ls HIDE_MISSING_SERVICE_KEY = Some ''1'')
   \<and> (MissingServiceNode_render st anch = [] \<longleftrightarrow> hideMissing st)
   \<and> (\<not> hideMissing st \<longrightarrow> list_ex isPlaceholder (MissingServiceNode_render st anch))
   \<and> storage (dismissMissingService w) HIDE_MISSING_SERVICE_KEY = Some ''1''
   \<and> hideMissing (component (dismissMissingService w))
   \<and> (hideMissing (component (run (mount ls) as)) \<longrightarrow>
        hideMissing (component (step (run (mount ls) as) a)))
   \<and> hideMissing (component (run (mount ls) (as @ Dismiss # bs)))
   \<and> storage (run (mount ls) (as @ Dismiss # bs)) HIDE_MISSING_SERVICE_KEY = Some ''1''
   \<and> MissingServiceNode_render (component (run (mount ls) (as @ Dismiss # bs))) anch = []
   \<and> (parseQuickTrace x quickTrace event = Inr pq \<longrightarrow>
        (\<exists>nodes.
           QuickTrace x (storage (run (mount ls) (as @ Dismiss # bs))) event quickTrace loc org
             anch eDest tDest = QuickTraceContainer nodes
           \<and> \<not> list_ex isPlaceholder nodes))"
proof -
  let ?w = "run (mount ls) as"
  let ?v = "run (mount ls) (as @ Dismiss # bs)"
  have a: "hideMissing (MissingServiceNode_construct ls)
      \<longleftrightarrow> ls HIDE_MISSING_SERVICE_KEY = Some ''1''"
    by (simp add: MissingServiceNode_construct_def readMissingServiceState_def)
  have b: "MissingServiceNode_render st anch = [] \<longleftrightarrow> hideMissing st"
    by (simp add: MissingServiceNode_render_def)
  have c: "\<not> hideMissing st \<longrightarrow> list_ex isPlaceholder (MissingServiceNode_render st anch)"
    by (simp add: MissingServiceNode_render_def)
  have cons: "hideMissing (component ?w) \<longrightarrow> readMissingServiceState (storage ?w)"
    using mount_consistent by (rule run_keeps_consistent)
  have d: "hideMissing (component ?w) \<longrightarrow> hideMissing (component (step ?w a))"
    using cons step_keeps_hidden [of ?w a] by blast
  have v: "?v = run (dismissMissingService ?w) bs"
    by (simp add: run_append)
  have e: "hideMissing (component ?v) \<and> readMissingServiceState (storage ?v)"
    unfolding v by (rule run_keeps_hidden) (rule dismiss_hides)+
  then have f: "storage ?v HIDE_MISSING_SERVICE_KEY = Some ''1''"
    by (simp add: readMissingServiceState_def)
  have g: "MissingServiceNode_render (component ?v) anch = []"
    using e by (simp add: MissingServiceNode_render_def)
  have h: "parseQuickTrace x quickTrace event = Inr pq \<longrightarrow>
        (\<exists>nodes.
           QuickTrace x (storage ?v) event quickTrace loc org anch eDest tDest
             = QuickTraceContainer nodes
           \<and> \<not> list_ex isPlaceholder nodes)"
  proof
    assume "parseQuickTrace x quickTrace event = Inr pq"
    moreover from e have "readMissingServiceState (storage ?v)" ..
    ultimately show "\<exists>nodes.
           QuickTrace x (storage ?v) event quickTrace loc org anch eDest tDest
             = QuickTraceContainer nodes
           \<and> \<not> list_ex isPlaceholder nodes"
      by (rule QuickTrace_without_placeholder)
  qed
  from a b c d e f g h dismiss_hides(1,2) [of w] show ?thesis by blast
qed


text \<open>
  The theorem from an empty local storage: the first component is visible and renders the
  placeholder; after Dismiss it is hidden and stays hidden when constructed again; and
  \<open>QuickTrace\<close> then shows no placeholder for a current event that reports a missing
  child service.
\<close>

theorem dismissal_is_permanent_witness:
  "\<not> hideMissing (MissingServiceNode_construct emptyStorage)
   \<and> emptyStorage HIDE_MISSING_SERVICE_KEY \<noteq> Some ''1''
   \<and> \<not> hideMissing (component (mount emptyStorage))
   \<and> list_ex isPlaceholder
        (MissingServiceNode_render (component (mount emptyStorage)) AnchorLeft)
   \<and> hideMissing (component (run (mount emptyStorage) [Dismiss]))
   \<and> hideMissing (component (step (run (mount emptyStorage) [Dismiss]) Reconstruct))
   \<and> storage (run (mount emptyStorage) [Dismiss, Reconstruct]) HIDE_MISSING_SERVICE_KEY
       = Some ''1''
   \<and> parseQuickTrace x0 (Inr smallTraceMissing) viewedTransaction = Inr smallTraceMissing
   \<and> (\<exists>nodes.
         QuickTrace x0 (storage (run (mount emptyStorage) [Dismiss, Reconstruct]))
           viewedTransaction (Inr smallTraceMissing) ''/here'' org0 AnchorLeft ''issue''
           ''performance'' = QuickTraceContainer nodes
         \<and> \<not> list_ex isPlaceholder nodes)"
proof -
  note t1 = dismissal_is_permanent
    [where ls = emptyStorage and as = "[Dismiss]" and a = Reconstruct
       and st = "component (mount emptyStorage)" and anch = AnchorLeft]
  note t2 = dismissal_is_permanent
    [where ls = emptyStorage and as = "[]" and bs = "[Reconstruct]" and x = x0
       and quickTrace = "Inr smallTraceMissing" and event = viewedTransaction
       and pq = smallTraceMissing and loc = "''/here''" and org = org0 and anch = AnchorLeft
       and eDest = "''issue''" and tDest = "''performance''"]
  have k: "emptyStorage HIDE_MISSING_SERVICE_KEY \<noteq> Some ''1''"
    by (simp add: emptyStorage_def)
  have a: "\<not> hideMissing (MissingServiceNode_construct emptyStorage)"
    using t1 [THEN conjunct1] k by simp
  have b: "\<not> hideMissing (component (mount emptyStorage))"
    using a by (simp add: mount_def)
  have c: "list_ex isPlaceholder
        (MissingServiceNode_render (component (mount emptyStorage)) AnchorLeft)"
    using t1 [THEN conjunct2, THEN conjunct2, THEN conjunct1] b by simp
  have d: "hideMissing (component (run (mount emptyStorage) [Dismiss]))"
    by (simp add: dismissMissingService_def Let_def)
  have e: "hideMissing (component (step (run (mount emptyStorage) [Dismiss]) Reconstruct))"
    using t1 [THEN conjunct2, THEN conjunct2, THEN conjunct2, THEN conjunct2, THEN conjunct2,
        THEN conjunct1] d
    by (rule mp)
  have f: "storage (run (mount emptyStorage) [Dismiss, Reconstruct]) HIDE_MISSING_SERVICE_KEY
       = Some ''1''"
    using t2 [THEN conjunct2, THEN conjunct2, THEN conjunct2, THEN conjunct2, THEN conjunct2,
        THEN conjunct2, THEN conjunct2, THEN conjunct1]
    by simp
  have h: "parseQuickTrace x0 (Inr smallTraceMissing) viewedTransaction = Inr smallTraceMissing"
    by (simp add: x0_def)
  have g: "\<exists>nodes.
         QuickTrace x0 (storage (run (mount emptyStorage) [Dismiss, Reconstruct]))
           viewedTransaction (Inr smallTraceMissing) ''/here'' org0 AnchorLeft ''issue''
           ''performance'' = QuickTraceContainer nodes
         \<and> \<not> list_ex isPlaceholder nodes"
    using t2 [THEN conjunct2, THEN conjunct2, THEN conjunct2, THEN conjunct2, THEN conjunct2,
        THEN conjunct2, THEN conjunct2, THEN conjunct2, THEN conjunct2] h
    by simp
  from a k b c d e f h g show ?thesis by blast
qed

end
